theory Spec2Isabelle
  imports Main
begin

section \<open>Data model of \<open>main.py\<close>\<close>

text \<open>
  The program is a Telegram bot (class \<open>OrdersBot\<close>) that forwards every text message
  to an agent runtime and keeps one \<open>SQLiteSession\<close> per chat in the dictionary
  \<open>self.sessions\<close>. Everything the bot does besides updating that dictionary is a call
  to a collaborator (the chat transport, the agent runtime, the session store, the logger).
  The model makes those calls explicit:
  \<^item> the bot object and the rest of the process are a record \<open>state\<close>, passed in and returned;
  \<^item> every call to a collaborator is appended to \<open>trace\<close> when it is issued;
  \<^item> how a collaborator answers (it returns, or it raises) is read from a record \<open>env\<close>,
    over which the theorems quantify;
  \<^item> a Python exception is a value of \<open>exn\<close>, and a handler ends in an \<open>outcome\<close>.
\<close>

subsection \<open>Exceptions\<close>

text \<open>
  The source has two handlers \<open>except Exception\<close> (lines 172 and 257) and one
  \<open>except (KeyboardInterrupt, SystemExit)\<close> (line 215). In Python \<open>KeyboardInterrupt\<close>,
  \<open>SystemExit\<close> and \<open>asyncio.CancelledError\<close> derive from \<open>BaseException\<close> and not
  from \<open>Exception\<close>; every other constructor below stands for a subclass of \<open>Exception\<close>.
\<close>

datatype exn =
    RuntimeError string
  | AttributeError string
  | OtherException string
  | KeyboardInterrupt
  | SystemExit
  | CancelledError

fun is_Exception :: "exn \<Rightarrow> bool" where
  "is_Exception (RuntimeError _) = True"
| "is_Exception (AttributeError _) = True"
| "is_Exception (OtherException _) = True"
| "is_Exception KeyboardInterrupt = False"
| "is_Exception SystemExit = False"
| "is_Exception CancelledError = False"

fun is_KeyboardInterrupt_or_SystemExit :: "exn \<Rightarrow> bool" where
  "is_KeyboardInterrupt_or_SystemExit KeyboardInterrupt = True"
| "is_KeyboardInterrupt_or_SystemExit SystemExit = True"
| "is_KeyboardInterrupt_or_SystemExit _ = False"

text \<open>
  How a coroutine ends: it returns, it raises, or (only \<open>run\<close> and \<open>main\<close>) it stays
  suspended in \<open>stop_event.wait()\<close> for ever.
\<close>

datatype outcome = Returned | Raised exn | Blocked

subsection \<open>Strings: \<open>str(chat_id)\<close> and \<open>str.strip()\<close>\<close>

text \<open>
  Strings are byte lists; the non-ASCII characters of the source's literals are written as
  their UTF-8 bytes. \<open>str_int\<close> is Python's \<open>str\<close> on an \<open>int\<close>.
\<close>

definition digit_char :: "nat \<Rightarrow> char" where
  "digit_char d = char_of (48 + d)"

function str_nat :: "nat \<Rightarrow> string" where
  "str_nat n = (if n < 10 then [digit_char n] else str_nat (n div 10) @ [digit_char (n mod 10)])"
  by pat_completeness auto
termination
  by (relation "measure (\<lambda>n. n)") auto

definition str_int :: "int \<Rightarrow> string" where
  "str_int i = (if i < 0 then CHR ''-'' # str_nat (nat (- i)) else str_nat (nat i))"

text \<open>
  \<open>str.strip()\<close> removes leading and trailing whitespace. On bytes the whitespace
  characters of Python are 9 to 13 and 28 to 32; the whitespace of Unicode beyond ASCII is
  not covered, and no property below depends on what \<open>strip\<close> removes.
\<close>

definition isspace :: "char \<Rightarrow> bool" where
  "isspace c = (let n = (of_char c :: nat) in (9 \<le> n \<and> n \<le> 13) \<or> (28 \<le> n \<and> n \<le> 32))"

definition strip :: "string \<Rightarrow> string" where
  "strip t = rev (dropWhile isspace (rev (dropWhile isspace t)))"

subsection \<open>Objects\<close>

text \<open>
  \<open>SQLiteSession(str(chat_id), "sessions.db")\<close>: \<open>obj_id\<close> is the identity of the Python
  object (two handles are the same object when their \<open>obj_id\<close> agree), the other two
  fields are the constructor's arguments.
\<close>

record SQLiteSession =
  obj_id :: nat
  session_id :: string
  db_path :: string

text \<open>
  What the handlers read of a Telegram update: \<open>update.message\<close> (may be \<open>None\<close>),
  \<open>update.message.chat_id\<close> and \<open>update.message.text\<close> (may be \<open>None\<close>).
\<close>

record Message =
  chat_id :: int
  msg_text :: "string option"

record Update =
  message :: "Message option"

datatype callback = cb_start | cb_help_command | cb_reset_command | cb_handle_message

datatype handler =
    CommandHandler string callback
  | MessageHandler callback

record Application =
  app_token :: string
  handlers :: "handler list"

text \<open>The launched tool provider: \<open>MCPServerStdio(params={"command": c, "args": [s]})\<close>.\<close>

record MCPServerStdio =
  command :: string
  args :: "string list"

text \<open>
  The fields of \<open>self\<close>. The agent definition (\<open>self.agent\<close>) is a constant built once in
  \<open>__init__\<close> from \<open>mcp_server\<close> and never assigned again; it is not a field here.
\<close>

record OrdersBot =
  telegram_token :: string
  mcp_server :: MCPServerStdio
  sessions :: "int \<rightharpoonup> SQLiteSession"
  application :: "Application option"

subsection \<open>Effects and collaborators\<close>

datatype effect =
    LogInfo string
  | LogException string exn
  | SendActionTyping int
  | NewSQLiteSession string string
  | ClearSession SQLiteSession
  | RunnerRun string SQLiteSession
  | ReplyText int string "string option"
  | BuildApplication string
  | AppInitialize
  | AppStart
  | StartPolling
  | StopEventWait
  | UpdaterStop
  | AppStop
  | AppShutdown
  | LoadDotenv
  | MCPConnect string "string list"
  | MCPCleanup

record state =
  self :: OrdersBot
  trace :: "effect list"
  next_obj :: nat

text \<open>
  The answers of the collaborators. \<open>None\<close> in an \<open>exn option\<close> means the call returned;
  \<open>Some e\<close> means it raised \<open>e\<close>. \<open>runner_run\<close> gives \<open>result.final_output\<close>
  (\<open>None\<close> for Python's \<open>None\<close>). \<open>stop_event_wait\<close> is the wait on an event that
  nothing ever sets: it ends only by an exception thrown into it (\<open>Some e\<close>), and
  \<open>None\<close> means it never ends.
\<close>

record env =
  load_dotenv :: "(string \<rightharpoonup> string) \<Rightarrow> (string \<rightharpoonup> string)"
  mcp_connect :: "string \<Rightarrow> string list \<Rightarrow> exn option"
  mcp_cleanup :: "exn option"
  send_action :: "int \<Rightarrow> exn option"
  new_session :: "string \<Rightarrow> string \<Rightarrow> exn option"
  clear_session :: "SQLiteSession \<Rightarrow> exn option"
  runner_run :: "string \<Rightarrow> SQLiteSession \<Rightarrow> exn + string option"
  reply_text :: "int \<Rightarrow> string \<Rightarrow> string option \<Rightarrow> exn option"
  app_build :: "string \<Rightarrow> exn option"
  app_initialize :: "exn option"
  app_start :: "exn option"
  start_polling :: "exn option"
  stop_event_wait :: "exn option"
  updater_stop :: "exn option"
  app_stop :: "exn option"
  app_shutdown :: "exn option"

definition emit :: "effect \<Rightarrow> state \<Rightarrow> state" where
  "emit e s = s\<lparr>trace := trace s @ [e]\<rparr>"

text \<open>\<open>call e r s\<close>: issue the call \<open>e\<close>, whose answer is \<open>r\<close>.\<close>

definition call :: "effect \<Rightarrow> exn option \<Rightarrow> state \<Rightarrow> (exn + unit) \<times> state" where
  "call e r s = (case r of None \<Rightarrow> (Inr (), emit e s) | Some x \<Rightarrow> (Inl x, emit e s))"

text \<open>Sequencing of two steps: an exception of the first skips the second.\<close>

definition andthen ::
  "(exn + unit) \<times> state \<Rightarrow> (state \<Rightarrow> (exn + unit) \<times> state) \<Rightarrow> (exn + unit) \<times> state" where
  "andthen r k = (case r of (Inl e, s) \<Rightarrow> (Inl e, s) | (Inr _, s) \<Rightarrow> k s)"

definition to_outcome :: "(exn + unit) \<times> state \<Rightarrow> outcome \<times> state" where
  "to_outcome r = (case r of (Inl e, s) \<Rightarrow> (Raised e, s) | (Inr _, s) \<Rightarrow> (Returned, s))"

section \<open>The fixed texts\<close>

definition start_text :: string where
  "start_text =
     ''Ciao! '' @ [CHR 0xF0, CHR 0x9F, CHR 0x91, CHR 0x8B] @ '' Sono il tuo assistente ordini.\<newline>\<newline>'' @
     ''Puoi scrivere cose come:\<newline>'' @
     ''- *Inserisci un nuovo ordine per il cliente 1234 con consegna il 20/11*\<newline>'' @
     ''- *Mostrami lo stato dell'ordine 5678*\<newline>'' @
     ''- *Che prezzi abbiamo per l'articolo ABC123?*\<newline>\<newline>'' @
     ''Scrivi in linguaggio naturale e penser'' @ [CHR 0xC3, CHR 0xB2] @
     '' io a parlare con il gestionale. '' @ [CHR 0xF0, CHR 0x9F, CHR 0x98, CHR 0x89]"

definition help_text :: string where
  "help_text =
     ''Posso aiutarti a:\<newline>'' @
     ''- Inserire nuovi ordini\<newline>'' @
     ''- Consultare lo stato avanzamento ordini\<newline>'' @
     ''- Recuperare informazioni commerciali (prezzi, sconti, disponibilit'' @
     [CHR 0xC3, CHR 0xA0] @ '')\<newline>\<newline>'' @
     ''Dimmi semplicemente cosa ti serve, ad esempio:\<newline>'' @
     ''*Vorrei inserire un ordine per il cliente 90017863 per 10 pezzi di MP002.*''"

definition reset_text :: string where
  "reset_text =
     [CHR 0xE2, CHR 0x9C, CHR 0x85] @
     '' Ho azzerato la memoria della conversazione per questa chat.''"

definition fallback_text :: string where
  "fallback_text = ''Non ho ottenuto alcuna risposta dall'agent.''"

definition apology_text :: string where
  "apology_text =
     [CHR 0xE2, CHR 0x9D, CHR 0x8C] @
     '' Mi spiace, ho avuto un errore interno mentre processavo la tua richiesta.''"

text \<open>The constant arguments: the store's file, \<open>parse_mode="Markdown"\<close>, the log lines.\<close>

definition sessions_db :: string where
  "sessions_db = ''sessions.db''"

definition markdown :: string where
  "markdown = ''Markdown''"

definition received_log :: "int \<Rightarrow> string \<Rightarrow> effect" where
  "received_log cid user_message =
     LogInfo (''Messaggio da '' @ str_int cid @ '': '' @ user_message)"

definition processing_error_log :: "exn \<Rightarrow> effect" where
  "processing_error_log e = LogException ''Errore durante l'elaborazione del messaggio'' e"

definition initializing_log :: effect where
  "initializing_log = LogInfo ''Inizializzo OrdersBot...''"

definition polling_log :: effect where
  "polling_log = LogInfo (''Bot in esecuzione (polling)'' @ [CHR 0xE2, CHR 0x80, CHR 0xA6])"

definition stop_signal_log :: effect where
  "stop_signal_log =
     LogInfo (''Ricevuto segnale di stop, chiusura in corso'' @ [CHR 0xE2, CHR 0x80, CHR 0xA6])"

definition terminated_log :: effect where
  "terminated_log = LogInfo ''Bot terminato correttamente.''"

definition mcp_start_log :: "string \<Rightarrow> string \<Rightarrow> effect" where
  "mcp_start_log mcp_command mcp_script =
     LogInfo (''Avvio MCPServerStdio: '' @ mcp_command @ '' '' @ mcp_script)"

definition mcp_started_log :: effect where
  "mcp_started_log = LogInfo ''MCP server avviato, creo il bot OrdersBot...''"

definition bot_stopped_log :: "exn \<Rightarrow> effect" where
  "bot_stopped_log e =
     LogException (''Il bot si '' @ [CHR 0xC3, CHR 0xA8] @ '' fermato a causa di un errore'') e"

definition closing_log :: effect where
  "closing_log = LogInfo ''Chiusura OrdersBot completata.''"

section \<open>The session registry\<close>

text \<open>
  \<open>OrdersBot._get_session\<close> (lines 91 to 99). The constructor of the session may raise;
  then nothing is stored. A new object takes the next free identity.
\<close>

definition get_session :: "env \<Rightarrow> int \<Rightarrow> state \<Rightarrow> (exn + SQLiteSession) \<times> state" where
  "get_session ev cid s =
     (case sessions (self s) cid of
        Some h \<Rightarrow> (Inr h, s)
      | None \<Rightarrow>
          (let s1 = emit (NewSQLiteSession (str_int cid) sessions_db) s in
           case new_session ev (str_int cid) sessions_db of
             Some e \<Rightarrow> (Inl e, s1)
           | None \<Rightarrow>
               (let h = \<lparr>obj_id = next_obj s1, session_id = str_int cid, db_path = sessions_db\<rparr>
                in (Inr h,
                    s1\<lparr>self := (self s1)\<lparr>sessions := (sessions (self s1))(cid \<mapsto> h)\<rparr>,
                       next_obj := Suc (next_obj s1)\<rparr>))))"

section \<open>Command handlers\<close>

text \<open>
  \<open>start\<close> and \<open>help_command\<close> (lines 103 to 125) call \<open>update.message.reply_text\<close>
  without a guard: on an update without a message the attribute access raises.
\<close>

definition no_message_error :: exn where
  "no_message_error = AttributeError ''NoneType object has no attribute reply_text''"

definition start :: "env \<Rightarrow> Update \<Rightarrow> state \<Rightarrow> outcome \<times> state" where
  "start ev upd s =
     (case message upd of
        None \<Rightarrow> (Raised no_message_error, s)
      | Some m \<Rightarrow>
          to_outcome (call (ReplyText (chat_id m) start_text (Some markdown))
                           (reply_text ev (chat_id m) start_text (Some markdown)) s))"

definition help_command :: "env \<Rightarrow> Update \<Rightarrow> state \<Rightarrow> outcome \<times> state" where
  "help_command ev upd s =
     (case message upd of
        None \<Rightarrow> (Raised no_message_error, s)
      | Some m \<Rightarrow>
          to_outcome (call (ReplyText (chat_id m) help_text (Some markdown))
                           (reply_text ev (chat_id m) help_text (Some markdown)) s))"

text \<open>
  \<open>reset_command\<close> (lines 127 to 142). \<open>clear_stored\<close> is the \<open>if chat_id in self.sessions\<close>
  block: the entry is deleted after \<open>clear_session\<close> has returned.
\<close>

definition clear_stored :: "env \<Rightarrow> int \<Rightarrow> state \<Rightarrow> (exn + unit) \<times> state" where
  "clear_stored ev cid s =
     (case sessions (self s) cid of
        None \<Rightarrow> (Inr (), s)
      | Some session \<Rightarrow>
          andthen (call (ClearSession session) (clear_session ev session) s)
            (\<lambda>s1. (Inr (), s1\<lparr>self := (self s1)\<lparr>sessions := (sessions (self s1))(cid := None)\<rparr>\<rparr>)))"

definition reset_command :: "env \<Rightarrow> Update \<Rightarrow> state \<Rightarrow> outcome \<times> state" where
  "reset_command ev upd s =
     (case message upd of
        None \<Rightarrow> (Returned, s)
      | Some m \<Rightarrow>
          to_outcome
            (andthen (clear_stored ev (chat_id m) s)
               (\<lambda>s1. call (ReplyText (chat_id m) reset_text None)
                           (reply_text ev (chat_id m) reset_text None) s1)))"

section \<open>The message handler\<close>

text \<open>
  The body of the \<open>try\<close> of \<open>handle_message\<close> (lines 160 to 170): the session is looked
  up or created, the agent is run once, and its final output (or the fallback text when
  the output is falsy: \<open>None\<close> or the empty string) is sent with \<open>parse_mode="Markdown"\<close>.
\<close>

definition reply_of :: "string option \<Rightarrow> string" where
  "reply_of final_output =
     (case final_output of
        None \<Rightarrow> fallback_text
      | Some out \<Rightarrow> if out = [] then fallback_text else out)"

definition try_body :: "env \<Rightarrow> int \<Rightarrow> string \<Rightarrow> state \<Rightarrow> (exn + unit) \<times> state" where
  "try_body ev cid user_message s =
     (case get_session ev cid s of
        (Inl e, s1) \<Rightarrow> (Inl e, s1)
      | (Inr session, s1) \<Rightarrow>
          (let s2 = emit (RunnerRun user_message session) s1 in
           case runner_run ev user_message session of
             Inl e \<Rightarrow> (Inl e, s2)
           | Inr final_output \<Rightarrow>
               call (ReplyText cid (reply_of final_output) (Some markdown))
                    (reply_text ev cid (reply_of final_output) (Some markdown)) s2))"

text \<open>
  The \<open>except Exception\<close> clause (lines 172 to 176): an exception of class \<open>Exception\<close> is
  logged and answered with the apology; any other passes through. An exception raised by
  the apology's own \<open>reply_text\<close> leaves the handler.
\<close>

definition except_Exception :: "env \<Rightarrow> int \<Rightarrow> (exn + unit) \<times> state \<Rightarrow> outcome \<times> state" where
  "except_Exception ev cid r =
     (case r of
        (Inr _, s) \<Rightarrow> (Returned, s)
      | (Inl e, s) \<Rightarrow>
          if is_Exception e then
            to_outcome
              (call (ReplyText cid apology_text None) (reply_text ev cid apology_text None)
                 (emit (processing_error_log e) s))
          else (Raised e, s))"

text \<open>\<open>handle_message\<close> (lines 146 to 176).\<close>

definition handle_message :: "env \<Rightarrow> Update \<Rightarrow> state \<Rightarrow> outcome \<times> state" where
  "handle_message ev upd s =
     (case message upd of
        None \<Rightarrow> (Returned, s)
      | Some m \<Rightarrow>
          (case msg_text m of
             None \<Rightarrow> (Returned, s)
           | Some t \<Rightarrow>
               if t = [] then (Returned, s)
               else
                 (let user_message = strip t;
                      cid = chat_id m;
                      s1 = emit (received_log cid user_message) s
                  in case call (SendActionTyping cid) (send_action ev cid) s1 of
                       (Inl e, s2) \<Rightarrow> (Raised e, s2)
                     | (Inr _, s2) \<Rightarrow> except_Exception ev cid (try_body ev cid user_message s2))))"

section \<open>Lifecycle\<close>

text \<open>
  \<open>OrdersBot.__init__\<close> (lines 39 to 87): after \<open>load_dotenv()\<close> the token is read with
  \<open>os.getenv\<close>; a token that is \<open>None\<close> or empty is falsy and the constructor raises.
  The registry starts empty and no transport application exists yet.
\<close>

definition missing_token_error :: exn where
  "missing_token_error = RuntimeError ''TELEGRAM_BOT_TOKEN non impostato nelle variabili d'ambiente''"

definition OrdersBot_init ::
  "env \<Rightarrow> (string \<rightharpoonup> string) \<Rightarrow> MCPServerStdio \<Rightarrow> effect list \<Rightarrow> (exn + OrdersBot) \<times> effect list" where
  "OrdersBot_init ev environ srv tr =
     (case load_dotenv ev environ ''TELEGRAM_BOT_TOKEN'' of
        None \<Rightarrow> (Inl missing_token_error, tr @ [LoadDotenv])
      | Some tok \<Rightarrow>
          if tok = [] then (Inl missing_token_error, tr @ [LoadDotenv])
          else (Inr \<lparr>telegram_token = tok, mcp_server = srv, sessions = Map.empty,
                     application = None\<rparr>,
                tr @ [LoadDotenv]))"

text \<open>
  \<open>OrdersBot.run\<close> (lines 180 to 222). The application is built and the four handlers are
  registered only when \<open>self.application\<close> is \<open>None\<close>.
\<close>

definition registered_handlers :: "handler list" where
  "registered_handlers =
     [CommandHandler ''start'' cb_start,
      CommandHandler ''help'' cb_help_command,
      CommandHandler ''reset'' cb_reset_command,
      MessageHandler cb_handle_message]"

definition ensure_application :: "env \<Rightarrow> state \<Rightarrow> (exn + unit) \<times> state" where
  "ensure_application ev s =
     (case application (self s) of
        Some app \<Rightarrow> (Inr (), s)
      | None \<Rightarrow>
          andthen (call (BuildApplication (telegram_token (self s)))
                        (app_build ev (telegram_token (self s))) s)
            (\<lambda>s1. (Inr (),
                   s1\<lparr>self := (self s1)\<lparr>application :=
                        Some \<lparr>app_token = telegram_token (self s1),
                              handlers = registered_handlers\<rparr>\<rparr>\<rparr>)))"

text \<open>Lines 205 to 207, outside the \<open>try\<close>.\<close>

definition startup :: "env \<Rightarrow> state \<Rightarrow> (exn + unit) \<times> state" where
  "startup ev s =
     andthen (call AppInitialize (app_initialize ev) s)
       (\<lambda>s1. andthen (call AppStart (app_start ev) s1)
          (\<lambda>s2. call StartPolling (start_polling ev) s2))"

text \<open>The \<open>finally\<close> block, lines 219 to 222.\<close>

definition shutdown :: "env \<Rightarrow> state \<Rightarrow> (exn + unit) \<times> state" where
  "shutdown ev s =
     andthen (call UpdaterStop (updater_stop ev) s)
       (\<lambda>s1. andthen (call AppStop (app_stop ev) s1)
          (\<lambda>s2. andthen (call AppShutdown (app_shutdown ev) s2)
             (\<lambda>s3. (Inr (), emit terminated_log s3))))"

text \<open>
  The \<open>try\<close> statement, lines 211 to 222. The event is never set, so the wait ends only
  with an exception \<open>e\<close>; \<open>KeyboardInterrupt\<close> and \<open>SystemExit\<close> are caught and logged, the
  \<open>finally\<close> block runs, and an exception that was not caught is raised again after it.
  An exception of the \<open>finally\<close> block itself replaces it.
\<close>

definition polling_wait :: "env \<Rightarrow> state \<Rightarrow> outcome \<times> state" where
  "polling_wait ev s =
     (let s1 = emit StopEventWait s in
      case stop_event_wait ev of
        None \<Rightarrow> (Blocked, s1)
      | Some e \<Rightarrow>
          (let s2 = (if is_KeyboardInterrupt_or_SystemExit e
                     then emit stop_signal_log s1
                     else s1)
           in case shutdown ev s2 of
                (Inl e', s3) \<Rightarrow> (Raised e', s3)
              | (Inr _, s3) \<Rightarrow>
                  (if is_KeyboardInterrupt_or_SystemExit e then Returned else Raised e, s3)))"

definition run :: "env \<Rightarrow> state \<Rightarrow> outcome \<times> state" where
  "run ev s =
     (case andthen (ensure_application ev (emit initializing_log s))
                   (startup ev) of
        (Inl e, s1) \<Rightarrow> (Raised e, s1)
      | (Inr _, s1) \<Rightarrow>
          polling_wait ev
            (emit polling_log s1))"

text \<open>
  \<open>main\<close> (lines 227 to 260). \<open>os.getenv(key, default)\<close> gives the default only when the
  key is absent. The \<open>async with\<close> block connects the tool provider on entry and cleans it
  up on every exit of the body; the constructor of the bot is outside the inner \<open>try\<close>.
\<close>

definition getenv_default :: "(string \<rightharpoonup> string) \<Rightarrow> string \<Rightarrow> string \<Rightarrow> string" where
  "getenv_default environ k d = (case environ k of None \<Rightarrow> d | Some v \<Rightarrow> v)"

text \<open>The state right after the constructor, as \<open>main\<close> passes it to \<open>run\<close>.\<close>

definition initial_state :: "OrdersBot \<Rightarrow> effect list \<Rightarrow> state" where
  "initial_state b tr = \<lparr>self = b, trace = tr, next_obj = 0\<rparr>"

definition main_body ::
  "env \<Rightarrow> (string \<rightharpoonup> string) \<Rightarrow> MCPServerStdio \<Rightarrow> effect list \<Rightarrow> outcome \<times> effect list" where
  "main_body ev environ srv tr =
     (case OrdersBot_init ev environ srv
             (tr @ [mcp_started_log]) of
        (Inl e, tr1) \<Rightarrow> (Raised e, tr1)
      | (Inr b, tr1) \<Rightarrow>
          (case run ev (initial_state b tr1) of
             (Blocked, s) \<Rightarrow> (Blocked, trace s)
           | (Returned, s) \<Rightarrow> (Returned, trace s @ [closing_log])
           | (Raised e, s) \<Rightarrow>
               if is_Exception e then
                 (Returned,
                  trace s @
                    [bot_stopped_log e, closing_log])
               else (Raised e, trace s @ [closing_log])))"

definition main :: "env \<Rightarrow> (string \<rightharpoonup> string) \<Rightarrow> outcome \<times> effect list" where
  "main ev environ0 =
     (let environ1 = load_dotenv ev environ0;
          mcp_command = getenv_default environ1 ''ORDERS_MCP_COMMAND'' ''python'';
          mcp_script = getenv_default environ1 ''ORDERS_MCP_SCRIPT'' ''orders_mcp_server.py'';
          srv = \<lparr>command = mcp_command, args = [mcp_script]\<rparr>;
          tr = [LoadDotenv,
                mcp_start_log mcp_command mcp_script,
                MCPConnect (command srv) (args srv)]
      in case mcp_connect ev (command srv) (args srv) of
           Some e \<Rightarrow> (Raised e, tr)
         | None \<Rightarrow>
             (case main_body ev environ1 srv tr of
                (Blocked, tr1) \<Rightarrow> (Blocked, tr1)
              | (body, tr1) \<Rightarrow>
                  (case mcp_cleanup ev of
                     None \<Rightarrow> (body, tr1 @ [MCPCleanup])
                   | Some e \<Rightarrow> (Raised e, tr1 @ [MCPCleanup]))))"

section \<open>Sequences of operations\<close>

text \<open>
  One operation on the bot: a call of \<open>_get_session\<close>, of one of the four handlers or of
  \<open>run\<close>, each with the collaborators' answers during it. \<open>exec\<close> gives the state after it, whatever
  its outcome.
\<close>

datatype operation =
    GetSession env int
  | Start env Update
  | Help env Update
  | Reset env Update
  | HandleMessage env Update
  | Run env

fun exec :: "operation \<Rightarrow> state \<Rightarrow> state" where
  "exec (GetSession ev cid) s = snd (get_session ev cid s)"
| "exec (Start ev upd) s = snd (start ev upd s)"
| "exec (Help ev upd) s = snd (help_command ev upd s)"
| "exec (Reset ev upd) s = snd (reset_command ev upd s)"
| "exec (HandleMessage ev upd) s = snd (handle_message ev upd s)"
| "exec (Run ev) s = snd (run ev s)"

fun exec_all :: "operation list \<Rightarrow> state \<Rightarrow> state" where
  "exec_all [] s = s"
| "exec_all (op # ops) s = exec_all ops (exec op s)"

text \<open>Whether an operation is a \<open>/reset\<close> arriving from chat \<open>cid\<close>.\<close>

fun resets :: "int \<Rightarrow> operation \<Rightarrow> bool" where
  "resets cid (Reset ev upd) =
     (case message upd of None \<Rightarrow> False | Some m \<Rightarrow> chat_id m = cid)"
| "resets cid _ = False"

text \<open>
  The states of a running bot: those the constructor gives, and those any operation leads
  to from there.
\<close>

inductive reachable :: "state \<Rightarrow> bool" where
  constructed: "OrdersBot_init ev environ srv tr = (Inr b, tr') \<Longrightarrow> reachable (initial_state b tr')"
| operated: "reachable s \<Longrightarrow> reachable (exec op s)"

section \<open>Observations\<close>

text \<open>The calls issued between a state and a later one.\<close>

definition issued :: "state \<Rightarrow> state \<Rightarrow> effect list" where
  "issued s s' = drop (length (trace s)) (trace s')"

text \<open>The replies among some calls: chat, text and parse mode, in the order of sending.\<close>

fun reply_of_effect :: "effect \<Rightarrow> (int \<times> string \<times> string option) list" where
  "reply_of_effect (ReplyText cid t pm) = [(cid, t, pm)]"
| "reply_of_effect _ = []"

definition replies :: "effect list \<Rightarrow> (int \<times> string \<times> string option) list" where
  "replies tr = concat (map reply_of_effect tr)"

text \<open>The three calls of the shutdown sequence among some calls.\<close>

fun is_shutdown_call :: "effect \<Rightarrow> bool" where
  "is_shutdown_call UpdaterStop = True"
| "is_shutdown_call AppStop = True"
| "is_shutdown_call AppShutdown = True"
| "is_shutdown_call _ = False"

definition shutdown_calls :: "effect list \<Rightarrow> effect list" where
  "shutdown_calls tr = filter is_shutdown_call tr"

text \<open>
  Chat activity: any call to the chat transport, the agent runtime or the session store.
  Logging, reading the configuration and the tool provider's own start and stop are not.
\<close>

fun is_chat_activity :: "effect \<Rightarrow> bool" where
  "is_chat_activity (LogInfo _) = False"
| "is_chat_activity (LogException _ _) = False"
| "is_chat_activity LoadDotenv = False"
| "is_chat_activity (MCPConnect _ _) = False"
| "is_chat_activity MCPCleanup = False"
| "is_chat_activity _ = True"

text \<open>The chat an update comes from, when it carries a message.\<close>

definition update_chat :: "Update \<Rightarrow> int option" where
  "update_chat upd = map_option chat_id (message upd)"

text \<open>
  The sessions of the registry that are bound to a conversation: the constructor binds a
  session to the conversation by \<open>session_id = str(chat_id)\<close>.
\<close>

definition bound_to :: "state \<Rightarrow> int \<Rightarrow> SQLiteSession set" where
  "bound_to s cid = {h \<in> ran (sessions (self s)). session_id h = str_int cid}"

text \<open>
  The invariant of the registry: the entry of a chat is the session constructed for that
  chat, its identity is one the process has already given out, and two chats never hold the
  same object.
\<close>

definition one_session_per_chat :: "state \<Rightarrow> bool" where
  "one_session_per_chat s =
     ((\<forall>cid h. sessions (self s) cid = Some h \<longrightarrow>
          session_id h = str_int cid \<and> db_path h = sessions_db \<and> obj_id h < next_obj s) \<and>
      (\<forall>c d h h'. sessions (self s) c = Some h \<and> sessions (self s) d = Some h' \<and>
          obj_id h = obj_id h' \<longrightarrow> c = d))"

text \<open>The inverse of \<open>str_nat\<close>, used to show that \<open>str\<close> is injective.\<close>

definition nat_of_str :: "string \<Rightarrow> nat" where
  "nat_of_str cs = foldl (\<lambda>a c. 10 * a + (of_char c - 48)) 0 cs"

text \<open>A state whose registry is \<open>r\<close> and whose next free identity is \<open>n\<close>.\<close>

definition kept :: "(int \<rightharpoonup> SQLiteSession) \<Rightarrow> nat \<Rightarrow> state \<Rightarrow> bool" where
  "kept r n s = (sessions (self s) = r \<and> next_obj s = n)"

text \<open>The trace of \<open>s'\<close> extends that of \<open>s\<close> by calls that all satisfy \<open>P\<close>.\<close>

definition grows :: "(effect \<Rightarrow> bool) \<Rightarrow> state \<Rightarrow> state \<Rightarrow> bool" where
  "grows P s s' = (\<exists>X. trace s' = trace s @ X \<and> list_all P X)"

text \<open>The launches of the tool provider among some calls: command and argument list.\<close>

fun launch_of_effect :: "effect \<Rightarrow> (string \<times> string list) list" where
  "launch_of_effect (MCPConnect c a) = [(c, a)]"
| "launch_of_effect _ = []"

definition launches :: "effect list \<Rightarrow> (string \<times> string list) list" where
  "launches tr = concat (map launch_of_effect tr)"

text \<open>The calls \<open>run\<close> can make.\<close>

fun is_run_call :: "effect \<Rightarrow> bool" where
  "is_run_call (LogInfo _) = True"
| "is_run_call (BuildApplication _) = True"
| "is_run_call AppInitialize = True"
| "is_run_call AppStart = True"
| "is_run_call StartPolling = True"
| "is_run_call StopEventWait = True"
| "is_run_call UpdaterStop = True"
| "is_run_call AppStop = True"
| "is_run_call AppShutdown = True"
| "is_run_call _ = False"

text \<open>
  The first exception among the startup calls of \<open>run\<close>, in their order: the build of
  the application (made only when none exists yet), \<open>initialize\<close>, \<open>start\<close>,
  \<open>start_polling\<close>. Written from the specification's words (startup: build, initialize, start,
  start_polling), to be compared with \<open>run\<close>.
\<close>

definition startup_error :: "env \<Rightarrow> state \<Rightarrow> exn option" where
  "startup_error ev s =
     (case (if application (self s) = None then app_build ev (telegram_token (self s)) else None) of
        Some e \<Rightarrow> Some e
      | None \<Rightarrow>
          (case app_initialize ev of
             Some e \<Rightarrow> Some e
           | None \<Rightarrow>
               (case app_start ev of
                  Some e \<Rightarrow> Some e
                | None \<Rightarrow> start_polling ev)))"

section \<open>Example inputs\<close>

text \<open>Collaborators that always answer, with an agent that gives a fixed output.\<close>

definition ok_env :: env where
  "ok_env =
     \<lparr>load_dotenv = (\<lambda>environ. environ),
      mcp_connect = (\<lambda>c a. None),
      mcp_cleanup = None,
      send_action = (\<lambda>cid. None),
      new_session = (\<lambda>sid path. None),
      clear_session = (\<lambda>h. None),
      runner_run = (\<lambda>msg h. Inr (Some ''Ordine 5678: spedito'')),
      reply_text = (\<lambda>cid t pm. None),
      app_build = (\<lambda>tok. None),
      app_initialize = None,
      app_start = None,
      start_polling = None,
      stop_event_wait = Some CancelledError,
      updater_stop = None,
      app_stop = None,
      app_shutdown = None\<rparr>"

definition bot0 :: OrdersBot where
  "bot0 =
     \<lparr>telegram_token = ''123:abc'',
      mcp_server = \<lparr>command = ''python'', args = [''orders_mcp_server.py'']\<rparr>,
      sessions = Map.empty,
      application = None\<rparr>"

definition text_update :: "int \<Rightarrow> string \<Rightarrow> Update" where
  "text_update cid t = \<lparr>message = Some \<lparr>chat_id = cid, msg_text = Some t\<rparr>\<rparr>"

definition session42 :: SQLiteSession where
  "session42 = \<lparr>obj_id = 0, session_id = ''42'', db_path = sessions_db\<rparr>"

text \<open>A bot that has already answered chat 42 once.\<close>

definition state42 :: state where
  "state42 = \<lparr>self = bot0\<lparr>sessions := [42 \<mapsto> session42]\<rparr>, trace = [], next_obj = 1\<rparr>"

text \<open>An agent run that is cancelled, and one that fails with an ordinary error.\<close>

definition cancelled_env :: env where
  "cancelled_env = ok_env\<lparr>runner_run := (\<lambda>msg h. Inl CancelledError)\<rparr>"

definition failing_agent_env :: env where
  "failing_agent_env = ok_env\<lparr>runner_run := (\<lambda>msg h. Inl (OtherException ''tool call failed''))\<rparr>"

text \<open>An environment that holds the token.\<close>

definition token_environ :: "string \<rightharpoonup> string" where
  "token_environ = [''TELEGRAM_BOT_TOKEN'' \<mapsto> ''123:abc'']"

text \<open>A session store that refuses to clear, and a bot with two chats.\<close>

definition clear_fails_env :: env where
  "clear_fails_env = ok_env\<lparr>clear_session := (\<lambda>h. Some (OtherException ''database is locked''))\<rparr>"

definition session7 :: SQLiteSession where
  "session7 = \<lparr>obj_id = 1, session_id = ''7'', db_path = sessions_db\<rparr>"

definition state_two :: state where
  "state_two = \<lparr>self = bot0\<lparr>sessions := [42 \<mapsto> session42, 7 \<mapsto> session7]\<rparr>, trace = [], next_obj = 2\<rparr>"

text \<open>A transport whose \<open>start\<close> fails.\<close>

definition start_fails_env :: env where
  "start_fails_env = ok_env\<lparr>app_start := Some (OtherException ''network down'')\<rparr>"

text \<open>Environments that set one, or both, of the tool provider's variables.\<close>

definition only_script_env :: "string \<rightharpoonup> string" where
  "only_script_env = [''ORDERS_MCP_SCRIPT'' \<mapsto> ''srv.py'']"

definition only_command_env :: "string \<rightharpoonup> string" where
  "only_command_env = [''ORDERS_MCP_COMMAND'' \<mapsto> ''python3'']"

definition both_env :: "string \<rightharpoonup> string" where
  "both_env = [''ORDERS_MCP_COMMAND'' \<mapsto> ''python3'', ''ORDERS_MCP_SCRIPT'' \<mapsto> ''srv.py'']"

section \<open>Basic facts\<close>

declare str_nat.simps [simp del]

lemma fallback_text_nonempty: "fallback_text \<noteq> []"
  by (simp add: fallback_text_def)

lemma reply_of_effect_log [simp]:
  "reply_of_effect (received_log cid t) = []"
  "reply_of_effect (processing_error_log e) = []"
  "reply_of_effect initializing_log = []"
  "reply_of_effect polling_log = []"
  "reply_of_effect stop_signal_log = []"
  "reply_of_effect terminated_log = []"
  by (simp_all add: received_log_def processing_error_log_def initializing_log_def
      polling_log_def stop_signal_log_def terminated_log_def)

text \<open>
  When \<open>_get_session\<close> returns a handle, either the entry was there and nothing changed,
  or the constructor returned and the new object was stored.
\<close>

lemma get_session_cases:
  assumes "fst (get_session ev cid s) = Inr h"
  shows "(sessions (self s) cid = Some h \<and> get_session ev cid s = (Inr h, s)) \<or>
         (sessions (self s) cid = None \<and> new_session ev (str_int cid) sessions_db = None \<and>
          h = \<lparr>obj_id = next_obj s, session_id = str_int cid, db_path = sessions_db\<rparr> \<and>
          get_session ev cid s =
            (Inr h, s\<lparr>self := (self s)\<lparr>sessions := (sessions (self s))(cid \<mapsto> h)\<rparr>,
                      trace := trace s @ [NewSQLiteSession (str_int cid) sessions_db],
                      next_obj := Suc (next_obj s)\<rparr>))"
  using assms by (auto simp: get_session_def emit_def Let_def split: option.splits)

lemmas handler_defs =
  handle_message_def try_body_def except_Exception_def call_def to_outcome_def emit_def
  get_session_def issued_def replies_def reply_of_def Let_def

section \<open>The message handler: guard, reply and failure\<close>

text \<open>
  C9. On an update whose message is absent, or whose text is absent or empty,
  \<open>handle_message\<close> returns and the whole state is the one it was given: nothing is sent,
  the agent is not invoked (the trace is unchanged) and the registry is untouched.
\<close>

theorem C9_no_text_no_effect:
  assumes "message upd = None \<or>
           (\<exists>m. message upd = Some m \<and> (msg_text m = None \<or> msg_text m = Some []))"
  shows "handle_message ev upd s = (Returned, s)"
  using assms by (auto simp: handle_message_def)

theorem C9_no_text_no_effect_witness:
  "handle_message ok_env \<lparr>message = None\<rparr> state42 = (Returned, state42) \<and>
   handle_message ok_env \<lparr>message = Some \<lparr>chat_id = 42, msg_text = None\<rparr>\<rparr> state42 =
     (Returned, state42) \<and>
   handle_message ok_env (text_update 42 []) state42 = (Returned, state42)"
  using C9_no_text_no_effect [of "\<lparr>message = None\<rparr>" ok_env state42]
        C9_no_text_no_effect [of "\<lparr>message = Some \<lparr>chat_id = 42, msg_text = None\<rparr>\<rparr>" ok_env state42]
        C9_no_text_no_effect [of "text_update 42 []" ok_env state42]
  by (simp add: text_update_def)

text \<open>
  C4. For a message with a non-empty text whose agent run returns \<open>out\<close> (the typing action
  was sent and \<open>_get_session\<close> gave the handle \<open>h\<close> the agent ran with), the first reply the
  handler sends is, with \<open>parse_mode="Markdown"\<close>, the output itself, or the fallback text
  when the output is \<open>None\<close> or empty; it is never the empty text. When that send returns it
  is the only reply and the handler returns. (When the send raises an \<open>Exception\<close>, the
  \<open>except\<close> clause sends the apology after it.)
\<close>

theorem C4_reply_is_output_or_fallback:
  assumes "message upd = Some m" and "msg_text m = Some t" and "t \<noteq> []"
    and "send_action ev (chat_id m) = None"
    and "fst (get_session ev (chat_id m) s) = Inr h"
    and "runner_run ev (strip t) h = Inr out"
    and "r = (case out of None \<Rightarrow> fallback_text | Some x \<Rightarrow> if x = [] then fallback_text else x)"
  shows "r \<noteq> [] \<and>
         replies (issued s (snd (handle_message ev upd s))) =
           (chat_id m, r, Some markdown) #
           (case reply_text ev (chat_id m) r (Some markdown) of
              None \<Rightarrow> []
            | Some e \<Rightarrow> if is_Exception e then [(chat_id m, apology_text, None)] else []) \<and>
         fst (handle_message ev upd s) =
           (case reply_text ev (chat_id m) r (Some markdown) of
              None \<Rightarrow> Returned
            | Some e \<Rightarrow>
                if is_Exception e
                then (case reply_text ev (chat_id m) apology_text None of
                        None \<Rightarrow> Returned | Some e' \<Rightarrow> Raised e')
                else Raised e)"
proof -
  have nonempty: "r \<noteq> []"
    using assms(7) fallback_text_nonempty by (auto split: option.splits)
  have sent: "replies (issued s (snd (handle_message ev upd s))) =
           (chat_id m, r, Some markdown) #
           (case reply_text ev (chat_id m) r (Some markdown) of
              None \<Rightarrow> []
            | Some e \<Rightarrow> if is_Exception e then [(chat_id m, apology_text, None)] else [])"
    using get_session_cases [OF assms(5)] assms(1-4,6,7)
    by (auto simp: handler_defs split: option.splits)
  have ends: "fst (handle_message ev upd s) =
           (case reply_text ev (chat_id m) r (Some markdown) of
              None \<Rightarrow> Returned
            | Some e \<Rightarrow>
                if is_Exception e
                then (case reply_text ev (chat_id m) apology_text None of
                        None \<Rightarrow> Returned | Some e' \<Rightarrow> Raised e')
                else Raised e)"
    using get_session_cases [OF assms(5)] assms(1-4,6,7)
    by (auto simp: handler_defs split: option.splits)
  from nonempty sent ends show ?thesis by blast
qed

theorem C4_reply_is_output_or_fallback_witness:
  "replies (issued state42 (snd (handle_message ok_env (text_update 42 ''Stato?'') state42))) =
     [(42, ''Ordine 5678: spedito'', Some markdown)] \<and>
   replies (issued state42 (snd (handle_message (ok_env\<lparr>runner_run := (\<lambda>msg h. Inr (Some []))\<rparr>)
       (text_update 42 ''Stato?'') state42))) =
     [(42, fallback_text, Some markdown)] \<and>
   replies (issued state42 (snd (handle_message (ok_env\<lparr>runner_run := (\<lambda>msg h. Inr None)\<rparr>)
       (text_update 42 ''Stato?'') state42))) =
     [(42, fallback_text, Some markdown)]"
proof -
  let ?upd = "text_update 42 ''Stato?''"
  let ?m = "\<lparr>chat_id = 42, msg_text = Some ''Stato?''\<rparr>"
  let ?empty = "ok_env\<lparr>runner_run := (\<lambda>msg h. Inr (Some []))\<rparr>"
  let ?absent = "ok_env\<lparr>runner_run := (\<lambda>msg h. Inr None)\<rparr>"
  have m: "message ?upd = Some ?m" by (simp add: text_update_def)
  have t: "msg_text ?m = Some ''Stato?''" by simp
  have ne: "''Stato?'' \<noteq> []" by simp
  have g: "fst (get_session ev (chat_id ?m) state42) = Inr session42" for ev
    by (simp add: get_session_def state42_def bot0_def)
  have 1: "replies (issued state42 (snd (handle_message ok_env ?upd state42))) =
     [(42, ''Ordine 5678: spedito'', Some markdown)]"
    using C4_reply_is_output_or_fallback [OF m t ne _ g, of ok_env
        "Some ''Ordine 5678: spedito''" "''Ordine 5678: spedito''"]
    by (simp add: ok_env_def)
  have 2: "replies (issued state42 (snd (handle_message ?empty ?upd state42))) =
     [(42, fallback_text, Some markdown)]"
    using C4_reply_is_output_or_fallback [OF m t ne _ g, of ?empty "Some []" fallback_text]
    by (simp add: ok_env_def)
  have 3: "replies (issued state42 (snd (handle_message ?absent ?upd state42))) =
     [(42, fallback_text, Some markdown)]"
    using C4_reply_is_output_or_fallback [OF m t ne _ g, of ?absent None fallback_text]
    by (simp add: ok_env_def)
  from 1 2 3 show ?thesis by blast
qed

text \<open>
  C1, as stated, fails: the clause is \<open>except Exception\<close>, and an agent run that ends with
  \<open>asyncio.CancelledError\<close> (or \<open>KeyboardInterrupt\<close>, \<open>SystemExit\<close>), which is not an
  \<open>Exception\<close>, leaves the handler as it is, with no reply sent.
\<close>

theorem C1_base_exception_counterexample:
  "fst (handle_message cancelled_env (text_update 42 ''Stato?'') state42) = Raised CancelledError \<and>
   replies (issued state42 (snd (handle_message cancelled_env (text_update 42 ''Stato?'') state42))) = []"
  by (simp add: handler_defs cancelled_env_def ok_env_def text_update_def state42_def bot0_def)

text \<open>
  C1, amended. When the agent run raises an exception \<open>e\<close> of class \<open>Exception\<close>, the
  handler logs \<open>e\<close>, sends exactly one reply, the apology text (without parse mode), and ends
  as that send ends: it returns when the send returns, so \<open>e\<close> itself never leaves the
  handler. The registry still holds the session of the chat, ready for the next message.
\<close>

theorem C1_exception_gets_apology:
  assumes "message upd = Some m" and "msg_text m = Some t" and "t \<noteq> []"
    and "send_action ev (chat_id m) = None"
    and "fst (get_session ev (chat_id m) s) = Inr h"
    and "runner_run ev (strip t) h = Inl e"
    and "is_Exception e"
  shows "replies (issued s (snd (handle_message ev upd s))) = [(chat_id m, apology_text, None)] \<and>
         processing_error_log e \<in> set (issued s (snd (handle_message ev upd s))) \<and>
         fst (handle_message ev upd s) =
           (case reply_text ev (chat_id m) apology_text None of
              None \<Rightarrow> Returned | Some e' \<Rightarrow> Raised e') \<and>
         sessions (self (snd (handle_message ev upd s))) (chat_id m) = Some h"
  using get_session_cases [OF assms(5)] assms(1-4,6,7)
  by (auto simp: handler_defs split: option.splits)

theorem C1_exception_gets_apology_witness:
  "replies (issued state42 (snd (handle_message failing_agent_env (text_update 42 ''Stato?'') state42))) =
     [(42, apology_text, None)] \<and>
   fst (handle_message failing_agent_env (text_update 42 ''Stato?'') state42) = Returned"
proof -
  let ?upd = "text_update 42 ''Stato?''"
  let ?m = "\<lparr>chat_id = 42, msg_text = Some ''Stato?''\<rparr>"
  have m: "message ?upd = Some ?m" by (simp add: text_update_def)
  have t: "msg_text ?m = Some ''Stato?''" by simp
  have ne: "''Stato?'' \<noteq> []" by simp
  have g: "fst (get_session failing_agent_env (chat_id ?m) state42) = Inr session42"
    by (simp add: get_session_def state42_def bot0_def)
  show ?thesis
    using C1_exception_gets_apology [OF m t ne _ g, of "OtherException ''tool call failed''"]
    by (simp add: failing_agent_env_def ok_env_def)
qed

section \<open>What each operation does to the registry\<close>

lemma kept_refl: "kept (sessions (self s)) (next_obj s) s"
  by (simp add: kept_def)

lemma kept_emit: "kept r n s \<Longrightarrow> kept r n (emit e s)"
  by (simp add: kept_def emit_def)

lemma kept_call: "kept r n s \<Longrightarrow> kept r n (snd (call e x s))"
  by (cases x) (simp_all add: call_def kept_emit)

lemma kept_andthen:
  assumes "kept r n (snd x)" and "\<And>s. kept r n s \<Longrightarrow> kept r n (snd (k s))"
  shows "kept r n (snd (andthen x k))"
proof (cases x)
  case (Pair a s)
  with assms show ?thesis by (cases a) (simp_all add: andthen_def)
qed

lemma kept_to_outcome: "kept r n (snd x) \<Longrightarrow> kept r n (snd (to_outcome x))"
  by (cases x) (simp add: to_outcome_def split: sum.splits)

lemma kept_start: "kept r n s \<Longrightarrow> kept r n (snd (start ev upd s))"
  by (simp add: start_def kept_to_outcome kept_call split: option.splits)

lemma kept_help: "kept r n s \<Longrightarrow> kept r n (snd (help_command ev upd s))"
  by (simp add: help_command_def kept_to_outcome kept_call split: option.splits)

lemma kept_ensure_application: "kept r n s \<Longrightarrow> kept r n (snd (ensure_application ev s))"
  by (auto simp: ensure_application_def andthen_def call_def emit_def kept_def split: option.splits)

lemma kept_startup: "kept r n s \<Longrightarrow> kept r n (snd (startup ev s))"
  unfolding startup_def by (intro kept_andthen kept_call)

lemma kept_shutdown: "kept r n s \<Longrightarrow> kept r n (snd (shutdown ev s))"
  unfolding shutdown_def by (intro kept_andthen kept_call) (simp_all add: kept_emit)

lemma kept_polling_wait: "kept r n s \<Longrightarrow> kept r n (snd (polling_wait ev s))"
proof -
  assume k: "kept r n s"
  show ?thesis
  proof (cases "stop_event_wait ev")
    case None
    with k show ?thesis by (simp add: polling_wait_def kept_emit)
  next
    case (Some e)
    let ?s2 = "if is_KeyboardInterrupt_or_SystemExit e
               then emit stop_signal_log (emit StopEventWait s) else emit StopEventWait s"
    have "kept r n ?s2" using k by (simp add: kept_emit)
    then have "kept r n (snd (shutdown ev ?s2))" by (rule kept_shutdown)
    with Some show ?thesis
      by (cases "shutdown ev ?s2") (simp add: polling_wait_def Let_def split: sum.splits)
  qed
qed

lemma kept_run: "kept r n s \<Longrightarrow> kept r n (snd (run ev s))"
proof -
  assume k: "kept r n s"
  let ?x = "andthen (ensure_application ev (emit initializing_log s)) (startup ev)"
  have x: "kept r n (snd ?x)"
    by (intro kept_andthen kept_ensure_application kept_emit kept_startup k)
  show ?thesis
  proof (cases ?x)
    case (Pair a s1)
    with x have "kept r n s1" by simp
    then have "kept r n (snd (polling_wait ev (emit polling_log s1)))"
      by (intro kept_polling_wait kept_emit)
    with Pair \<open>kept r n s1\<close> show ?thesis by (cases a) (simp_all add: run_def)
  qed
qed

lemma get_session_registry:
  "sessions (self (snd (get_session ev d s))) =
     (case sessions (self s) d of
        Some h \<Rightarrow> sessions (self s)
      | None \<Rightarrow>
          (case new_session ev (str_int d) sessions_db of
             Some e \<Rightarrow> sessions (self s)
           | None \<Rightarrow> (sessions (self s))
               (d \<mapsto> \<lparr>obj_id = next_obj s, session_id = str_int d, db_path = sessions_db\<rparr>)))"
  by (simp add: get_session_def emit_def Let_def split: option.splits)

lemma get_session_next_obj:
  "next_obj (snd (get_session ev d s)) =
     (case sessions (self s) d of
        Some h \<Rightarrow> next_obj s
      | None \<Rightarrow>
          (case new_session ev (str_int d) sessions_db of
             Some e \<Rightarrow> next_obj s
           | None \<Rightarrow> Suc (next_obj s)))"
  by (simp add: get_session_def emit_def Let_def split: option.splits)

lemma get_session_emit:
  "sessions (self (snd (get_session ev d (emit e s)))) = sessions (self (snd (get_session ev d s)))"
  "next_obj (snd (get_session ev d (emit e s))) = next_obj (snd (get_session ev d s))"
  by (simp_all add: get_session_registry get_session_next_obj emit_def split: option.splits)

lemma kept_try_body:
  "kept r n (snd (get_session ev cid s)) \<Longrightarrow> kept r n (snd (try_body ev cid t s))"
  by (cases "get_session ev cid s")
     (auto simp: try_body_def Let_def kept_emit kept_call split: sum.splits)

lemma kept_except_Exception:
  "kept r n (snd x) \<Longrightarrow> kept r n (snd (except_Exception ev cid x))"
  by (cases x) (auto simp: except_Exception_def kept_emit kept_call kept_to_outcome split: sum.splits)

lemma reset_registry:
  "sessions (self (snd (reset_command ev upd s))) =
     (case message upd of
        None \<Rightarrow> sessions (self s)
      | Some m \<Rightarrow>
          (case sessions (self s) (chat_id m) of
             None \<Rightarrow> sessions (self s)
           | Some h \<Rightarrow>
               (case clear_session ev h of
                  None \<Rightarrow> (sessions (self s))(chat_id m := None)
                | Some e \<Rightarrow> sessions (self s))))"
  by (simp add: reset_command_def clear_stored_def andthen_def call_def to_outcome_def emit_def
      split: option.splits)

lemma reset_next_obj: "next_obj (snd (reset_command ev upd s)) = next_obj s"
  by (simp add: reset_command_def clear_stored_def andthen_def call_def to_outcome_def emit_def
      split: option.splits)

lemma handle_message_registry:
  "kept (sessions (self s)) (next_obj s) (snd (handle_message ev upd s)) \<or>
   (\<exists>m. message upd = Some m \<and>
      kept (sessions (self (snd (get_session ev (chat_id m) s))))
           (next_obj (snd (get_session ev (chat_id m) s)))
           (snd (handle_message ev upd s)))"
proof (cases "message upd")
  case None
  then show ?thesis by (simp add: handle_message_def kept_def)
next
  case (Some m)
  show ?thesis
  proof (cases "msg_text m = None \<or> msg_text m = Some [] \<or> send_action ev (chat_id m) \<noteq> None")
    case True
    with Some have "kept (sessions (self s)) (next_obj s) (snd (handle_message ev upd s))"
      by (auto simp: handle_message_def Let_def call_def kept_def emit_def split: option.splits)
    then show ?thesis ..
  next
    case False
    then obtain t where t: "msg_text m = Some t" "t \<noteq> []" "send_action ev (chat_id m) = None"
      by auto
    let ?s2 = "emit (SendActionTyping (chat_id m)) (emit (received_log (chat_id m) (strip t)) s)"
    have "kept (sessions (self (snd (get_session ev (chat_id m) s))))
            (next_obj (snd (get_session ev (chat_id m) s)))
            (snd (get_session ev (chat_id m) ?s2))"
      by (simp add: kept_def get_session_emit)
    then have "kept (sessions (self (snd (get_session ev (chat_id m) s))))
            (next_obj (snd (get_session ev (chat_id m) s)))
            (snd (except_Exception ev (chat_id m) (try_body ev (chat_id m) (strip t) ?s2)))"
      by (intro kept_except_Exception kept_try_body)
    with Some t show ?thesis
      by (simp add: handle_message_def Let_def call_def)
  qed
qed

section \<open>Identity stability\<close>

lemma get_session_keeps_entry:
  "sessions (self s) cid = Some h \<Longrightarrow> sessions (self (snd (get_session ev d s))) cid = Some h"
  by (auto simp: get_session_registry split: option.splits)

lemma exec_keeps_entry:
  assumes "sessions (self s) cid = Some h" and "\<not> resets cid op"
  shows "sessions (self (exec op s)) cid = Some h"
proof (cases op)
  case (GetSession ev d)
  with assms show ?thesis by (simp add: get_session_keeps_entry)
next
  case (Start ev upd)
  with assms kept_start [OF kept_refl, of s ev upd] show ?thesis by (simp add: kept_def)
next
  case (Help ev upd)
  with assms kept_help [OF kept_refl, of s ev upd] show ?thesis by (simp add: kept_def)
next
  case (Reset ev upd)
  with assms show ?thesis by (auto simp: reset_registry split: option.splits)
next
  case (HandleMessage ev upd)
  with assms handle_message_registry [of s ev upd] show ?thesis
    by (auto simp: kept_def get_session_keeps_entry)
next
  case (Run ev)
  with assms kept_run [OF kept_refl, of s ev] show ?thesis by (simp add: kept_def)
qed

lemma exec_all_keeps_entry:
  "sessions (self s) cid = Some h \<Longrightarrow> \<forall>op \<in> set ops. \<not> resets cid op \<Longrightarrow>
   sessions (self (exec_all ops s)) cid = Some h"
  by (induction ops arbitrary: s) (simp_all add: exec_keeps_entry)

text \<open>
  C2. When \<open>_get_session\<close> has returned the handle \<open>h\<close> for a chat, then after any
  sequence of operations that contains no \<open>/reset\<close> from that chat (calls of
  \<open>_get_session\<close> for any chat, commands and messages of any chat, whatever the
  collaborators answer), a second call for the chat returns the same handle \<open>h\<close>, the same
  object, and changes nothing.
\<close>

theorem C2_same_handle_until_reset:
  assumes "get_session ev1 cid s = (Inr h, s1)"
    and "\<forall>op \<in> set ops. \<not> resets cid op"
  shows "get_session ev2 cid (exec_all ops s1) = (Inr h, exec_all ops s1)"
proof -
  from assms(1) have "fst (get_session ev1 cid s) = Inr h" by simp
  from get_session_cases [OF this] assms(1) have "sessions (self s1) cid = Some h"
    by auto
  with assms(2) have "sessions (self (exec_all ops s1)) cid = Some h"
    by (simp add: exec_all_keeps_entry)
  then show ?thesis by (simp add: get_session_def)
qed


theorem C2_same_handle_until_reset_witness:
  "get_session ok_env 42 (exec_all [GetSession ok_env 7, Reset ok_env (text_update 7 ''/reset''),
       HandleMessage failing_agent_env (text_update 42 ''Stato?''), GetSession ok_env 42]
     (snd (get_session ok_env 42 (initial_state bot0 [])))) =
   (Inr \<lparr>obj_id = 0, session_id = str_int 42, db_path = sessions_db\<rparr>,
    exec_all [GetSession ok_env 7, Reset ok_env (text_update 7 ''/reset''),
       HandleMessage failing_agent_env (text_update 42 ''Stato?''), GetSession ok_env 42]
     (snd (get_session ok_env 42 (initial_state bot0 []))))"
proof -
  let ?ops = "[GetSession ok_env 7, Reset ok_env (text_update 7 ''/reset''),
       HandleMessage failing_agent_env (text_update 42 ''Stato?''), GetSession ok_env 42]"
  let ?h = "\<lparr>obj_id = 0, session_id = str_int 42, db_path = sessions_db\<rparr>"
  have g: "get_session ok_env 42 (initial_state bot0 []) =
    (Inr ?h, snd (get_session ok_env 42 (initial_state bot0 [])))"
    by (simp add: get_session_def initial_state_def bot0_def ok_env_def emit_def Let_def)
  have r: "\<forall>op \<in> set ?ops. \<not> resets 42 op"
    by (simp add: text_update_def)
  show ?thesis
    by (rule C2_same_handle_until_reset [OF g r])
qed

section \<open>The invariant of the registry\<close>

lemma one_session_per_chat_kept:
  "kept (sessions (self s)) (next_obj s) s' \<Longrightarrow> one_session_per_chat s \<Longrightarrow> one_session_per_chat s'"
  by (simp add: kept_def one_session_per_chat_def)

lemma one_session_per_chat_get_session:
  assumes "one_session_per_chat s"
  shows "one_session_per_chat (snd (get_session ev d s))"
proof (cases "sessions (self s) d = None \<and> new_session ev (str_int d) sessions_db = None")
  case False
  then have "kept (sessions (self s)) (next_obj s) (snd (get_session ev d s))"
    by (auto simp: kept_def get_session_registry get_session_next_obj split: option.splits)
  with assms show ?thesis using one_session_per_chat_kept by blast
next
  case True
  let ?h = "\<lparr>obj_id = next_obj s, session_id = str_int d, db_path = sessions_db\<rparr>"
  from True have reg: "sessions (self (snd (get_session ev d s))) = (sessions (self s))(d \<mapsto> ?h)"
    and nxt: "next_obj (snd (get_session ev d s)) = Suc (next_obj s)"
    by (simp_all add: get_session_registry get_session_next_obj)
  from assms have old: "\<And>c h. sessions (self s) c = Some h \<Longrightarrow>
      session_id h = str_int c \<and> db_path h = sessions_db \<and> obj_id h < next_obj s"
    and inj: "\<And>c c' h h'. sessions (self s) c = Some h \<Longrightarrow> sessions (self s) c' = Some h' \<Longrightarrow>
      obj_id h = obj_id h' \<Longrightarrow> c = c'"
    unfolding one_session_per_chat_def by blast+
  show ?thesis
    unfolding one_session_per_chat_def reg nxt
  proof (intro conjI allI impI)
    fix c h assume "((sessions (self s))(d \<mapsto> ?h)) c = Some h"
    then have "(c = d \<and> h = ?h) \<or> sessions (self s) c = Some h"
      by (auto split: if_splits)
    then show "session_id h = str_int c" "db_path h = sessions_db" "obj_id h < Suc (next_obj s)"
      using old [of c h] by auto
  next
    fix c c' h h'
    assume a: "((sessions (self s))(d \<mapsto> ?h)) c = Some h \<and>
               ((sessions (self s))(d \<mapsto> ?h)) c' = Some h' \<and> obj_id h = obj_id h'"
    then have 1: "(c = d \<and> h = ?h) \<or> (c \<noteq> d \<and> sessions (self s) c = Some h)"
      and 2: "(c' = d \<and> h' = ?h) \<or> (c' \<noteq> d \<and> sessions (self s) c' = Some h')"
      by (auto split: if_splits)
    from a have eq: "obj_id h = obj_id h'" by simp
    show "c = c'"
      using 1 2 eq old [of c h] old [of c' h'] inj [of c h c' h'] by auto
  qed
qed

lemma one_session_per_chat_delete:
  assumes "one_session_per_chat s" and "sessions (self s') = (sessions (self s))(c := None)"
    and "next_obj s' = next_obj s"
  shows "one_session_per_chat s'"
  using assms unfolding one_session_per_chat_def
  by (auto split: if_splits)

lemma one_session_per_chat_reset:
  assumes "one_session_per_chat s"
  shows "one_session_per_chat (snd (reset_command ev upd s))"
proof -
  have "kept (sessions (self s)) (next_obj s) (snd (reset_command ev upd s)) \<or>
        (\<exists>c. sessions (self (snd (reset_command ev upd s))) = (sessions (self s))(c := None))"
    by (auto simp: kept_def reset_registry reset_next_obj split: option.splits)
  then show ?thesis
    using assms one_session_per_chat_kept one_session_per_chat_delete reset_next_obj by blast
qed

lemma one_session_per_chat_exec:
  assumes "one_session_per_chat s"
  shows "one_session_per_chat (exec op s)"
proof (cases op)
  case (GetSession ev d)
  with assms show ?thesis by (simp add: one_session_per_chat_get_session)
next
  case (Start ev upd)
  with assms kept_start [OF kept_refl, of s ev upd] show ?thesis
    by (simp add: one_session_per_chat_kept)
next
  case (Help ev upd)
  with assms kept_help [OF kept_refl, of s ev upd] show ?thesis
    by (simp add: one_session_per_chat_kept)
next
  case (Reset ev upd)
  with assms show ?thesis by (simp add: one_session_per_chat_reset)
next
  case (HandleMessage ev upd)
  from handle_message_registry [of s ev upd] assms
  have "one_session_per_chat (snd (handle_message ev upd s))"
    using one_session_per_chat_kept one_session_per_chat_get_session by blast
  with HandleMessage show ?thesis by simp
next
  case (Run ev)
  with assms kept_run [OF kept_refl, of s ev] show ?thesis
    by (simp add: one_session_per_chat_kept)
qed

lemma one_session_per_chat_constructed:
  "OrdersBot_init ev environ srv tr = (Inr b, tr') \<Longrightarrow> one_session_per_chat (initial_state b tr')"
  by (auto simp: OrdersBot_init_def one_session_per_chat_def initial_state_def
      split: option.splits if_splits)

lemma reachable_one_session_per_chat: "reachable s \<Longrightarrow> one_session_per_chat s"
  by (induction rule: reachable.induct)
     (simp_all add: one_session_per_chat_constructed one_session_per_chat_exec)

section \<open>\<open>str\<close> is injective\<close>

lemma of_char_digit_char: "d < 10 \<Longrightarrow> of_char (digit_char d) = (48 + d :: nat)"
  by (simp add: digit_char_def)

lemma nat_of_str_snoc: "nat_of_str (cs @ [c]) = 10 * nat_of_str cs + (of_char c - 48)"
  by (simp add: nat_of_str_def)

lemma nat_of_str_str_nat: "nat_of_str (str_nat n) = n"
proof (induction n rule: str_nat.induct)
  case (1 n)
  show ?case
  proof (cases "n < 10")
    case True
    then show ?thesis
      by (subst str_nat.simps) (simp add: nat_of_str_def of_char_digit_char)
  next
    case False
    with 1 have "nat_of_str (str_nat (n div 10)) = n div 10" by simp
    with False show ?thesis
      by (subst str_nat.simps) (simp add: nat_of_str_snoc of_char_digit_char)
  qed
qed

lemma str_nat_inj: "str_nat a = str_nat b \<Longrightarrow> a = b"
  by (metis nat_of_str_str_nat)

lemma digit_char_not_minus: "d < 10 \<Longrightarrow> digit_char d \<noteq> CHR ''-''"
proof
  assume "d < 10" and "digit_char d = CHR ''-''"
  then have "(of_char (digit_char d) :: nat) = of_char CHR ''-''" by simp
  with \<open>d < 10\<close> show False by (simp add: of_char_digit_char)
qed

lemma str_nat_no_minus: "CHR ''-'' \<notin> set (str_nat n)"
proof (induction n rule: str_nat.induct)
  case (1 n)
  show ?case
  proof (cases "n < 10")
    case True
    then show ?thesis
      using digit_char_not_minus [of n] by (subst str_nat.simps) auto
  next
    case False
    with 1 have "CHR ''-'' \<notin> set (str_nat (n div 10))" by simp
    with False show ?thesis
      using digit_char_not_minus [of "n mod 10"] by (subst str_nat.simps) auto
  qed
qed

lemma str_int_inj: "str_int i = str_int j \<Longrightarrow> i = j"
proof -
  assume eq: "str_int i = str_int j"
  have neg_pos: False if "a < 0" "0 \<le> b" "str_int a = str_int b" for a b
  proof -
    from that have "CHR ''-'' # str_nat (nat (- a)) = str_nat (nat b)"
      by (simp add: str_int_def)
    then have "CHR ''-'' \<in> set (str_nat (nat b))" by (metis list.set_intros(1))
    with str_nat_no_minus show False by blast
  qed
  show ?thesis
  proof (cases "i < 0")
    case True
    show ?thesis
    proof (cases "j < 0")
      case True
      with \<open>i < 0\<close> eq have "str_nat (nat (- i)) = str_nat (nat (- j))"
        by (simp add: str_int_def)
      then have "nat (- i) = nat (- j)" by (rule str_nat_inj)
      with True \<open>i < 0\<close> show ?thesis by simp
    next
      case False
      with neg_pos [of i j] \<open>i < 0\<close> eq show ?thesis by simp
    qed
  next
    case False
    show ?thesis
    proof (cases "j < 0")
      case True
      with neg_pos [of j i] False eq show ?thesis by simp
    next
      case jpos: False
      with False eq have "str_nat (nat i) = str_nat (nat j)"
        by (simp add: str_int_def)
      then have "nat i = nat j" by (rule str_nat_inj)
      with False jpos show ?thesis by simp
    qed
  qed
qed

lemma bound_to_registry:
  assumes "one_session_per_chat s"
  shows "bound_to s cid = set_option (sessions (self s) cid)"
proof -
  from assms have old: "\<And>c h. sessions (self s) c = Some h \<Longrightarrow> session_id h = str_int c"
    unfolding one_session_per_chat_def by blast
  show ?thesis
  proof (intro set_eqI iffI)
    fix h assume "h \<in> bound_to s cid"
    then obtain c where c: "sessions (self s) c = Some h" and sid: "session_id h = str_int cid"
      by (auto simp: bound_to_def ran_def)
    from old [OF c] sid have "c = cid" by (simp add: str_int_inj)
    with c show "h \<in> set_option (sessions (self s) cid)" by simp
  next
    fix h assume "h \<in> set_option (sessions (self s) cid)"
    then have c: "sessions (self s) cid = Some h" by (cases "sessions (self s) cid") auto
    with old [OF c] show "h \<in> bound_to s cid" by (auto simp: bound_to_def ran_def)
  qed
qed

section \<open>One session per conversation\<close>

text \<open>
  C7. In every state the bot can reach from its constructor by any operations
  (\<open>_get_session\<close>, the three commands, the message handler, \<open>run\<close>; whatever the
  collaborators answer), the registry satisfies its invariant, and every operation keeps
  it. Hence the sessions bound to a conversation are exactly the registry's entry for it:
  at most one, and the registry alone tells which.
\<close>

theorem C7_one_session_per_chat:
  assumes "reachable s"
  shows "one_session_per_chat s \<and> one_session_per_chat (exec op s) \<and>
         bound_to s cid = set_option (sessions (self s) cid) \<and> card (bound_to s cid) \<le> 1"
proof -
  from assms have inv: "one_session_per_chat s" by (rule reachable_one_session_per_chat)
  then have step: "one_session_per_chat (exec op s)" by (rule one_session_per_chat_exec)
  from inv have b: "bound_to s cid = set_option (sessions (self s) cid)"
    by (rule bound_to_registry)
  have "card (set_option (sessions (self s) cid)) \<le> 1"
    by (cases "sessions (self s) cid") simp_all
  with inv step b show ?thesis by simp
qed

theorem C7_one_session_per_chat_witness:
  "one_session_per_chat
     (exec (HandleMessage ok_env (text_update 42 ''Stato?'')) (initial_state bot0 [LoadDotenv])) \<and>
   card (bound_to
     (exec (HandleMessage ok_env (text_update 42 ''Stato?'')) (initial_state bot0 [LoadDotenv])) 42) \<le> 1"
proof -
  have "OrdersBot_init ok_env token_environ (mcp_server bot0) [] = (Inr bot0, [LoadDotenv])"
    by (simp add: OrdersBot_init_def ok_env_def token_environ_def bot0_def)
  then have "reachable (initial_state bot0 [LoadDotenv])"
    by (rule reachable.constructed)
  then have "reachable
     (exec (HandleMessage ok_env (text_update 42 ''Stato?'')) (initial_state bot0 [LoadDotenv]))"
    by (rule reachable.operated)
  from C7_one_session_per_chat [OF this] show ?thesis by blast
qed

section \<open>Reset\<close>

lemmas reset_defs =
  reset_command_def clear_stored_def andthen_def call_def to_outcome_def emit_def issued_def

lemma reset_absent:
  assumes "message upd = Some m" and "sessions (self s) (chat_id m) = None"
  shows "reset_command ev upd s =
           ((case reply_text ev (chat_id m) reset_text None of
               None \<Rightarrow> Returned | Some e \<Rightarrow> Raised e),
            emit (ReplyText (chat_id m) reset_text None) s)"
  using assms by (simp add: reset_defs split: option.splits)

lemma reset_cleared:
  assumes "message upd = Some m" and "sessions (self s) (chat_id m) = Some h"
    and "clear_session ev h = None"
  shows "reset_command ev upd s =
           ((case reply_text ev (chat_id m) reset_text None of
               None \<Rightarrow> Returned | Some e \<Rightarrow> Raised e),
            s\<lparr>self := (self s)\<lparr>sessions := (sessions (self s))(chat_id m := None)\<rparr>,
              trace := trace s @ [ClearSession h, ReplyText (chat_id m) reset_text None]\<rparr>)"
  using assms by (simp add: reset_defs split: option.splits)

lemma reset_clear_raises:
  assumes "message upd = Some m" and "sessions (self s) (chat_id m) = Some h"
    and "clear_session ev h = Some e"
  shows "reset_command ev upd s = (Raised e, emit (ClearSession h) s)"
  using assms by (simp add: reset_defs split: option.splits)

lemma get_session_fresh:
  assumes "sessions (self s) cid = None" and "fst (get_session ev cid s) = Inr h"
  shows "obj_id h = next_obj s \<and> session_id h = str_int cid \<and> db_path h = sessions_db \<and>
         issued s (snd (get_session ev cid s)) = [NewSQLiteSession (str_int cid) sessions_db] \<and>
         sessions (self (snd (get_session ev cid s))) cid = Some h"
  using get_session_cases [OF assms(2)] assms(1) by (auto simp: issued_def)

text \<open>
  C3, as stated, fails in the case where a session exists: \<open>reset_command\<close> awaits
  \<open>session.clear_session()\<close> (line 137) with no handler around it, so when that call
  raises, the exception leaves the handler, the entry stays in the registry and no
  confirmation is sent.
\<close>

theorem C3_reset_counterexample:
  "fst (reset_command clear_fails_env (text_update 42 ''/reset'') state42) =
     Raised (OtherException ''database is locked'') \<and>
   sessions (self (snd (reset_command clear_fails_env (text_update 42 ''/reset'') state42))) 42 =
     Some session42 \<and>
   replies (issued state42 (snd (reset_command clear_fails_env (text_update 42 ''/reset'') state42))) = []"
  by (simp add: reset_defs replies_def clear_fails_env_def ok_env_def text_update_def state42_def bot0_def)

text \<open>
  C3, amended. For an update with a message from chat \<open>cid\<close>:
  \<^item> if the registry has no entry for \<open>cid\<close>, the registry is unchanged and the only call is
    the reply with the confirmation text;
  \<^item> if it has the entry \<open>h\<close>, the first call asks \<open>h\<close> to clear its history; when that
    call returns, the entry is removed and the confirmation is sent; when it raises, the
    exception leaves the handler, the registry is unchanged and nothing is sent;
  \<^item> whenever the confirmation was sent, the registry has no entry for \<open>cid\<close>, so a
    following \<open>_get_session\<close> that returns has constructed a new session and stored it,
    and (in a state that satisfies the registry's invariant) its identity differs from
    that of every session the registry held before the reset.
\<close>

theorem C3_reset_clears_then_removes:
  assumes "message upd = Some m" and "reset_command ev upd s = (out, s')"
  shows "(case sessions (self s) (chat_id m) of
            None \<Rightarrow>
              sessions (self s') = sessions (self s) \<and>
              issued s s' = [ReplyText (chat_id m) reset_text None]
          | Some h \<Rightarrow>
              (case clear_session ev h of
                 None \<Rightarrow>
                   sessions (self s') = (sessions (self s))(chat_id m := None) \<and>
                   issued s s' = [ClearSession h, ReplyText (chat_id m) reset_text None]
               | Some e \<Rightarrow>
                   sessions (self s') = sessions (self s) \<and>
                   issued s s' = [ClearSession h] \<and> out = Raised e)) \<and>
         (replies (issued s s') = [(chat_id m, reset_text, None)] \<longrightarrow>
            sessions (self s') (chat_id m) = None \<and>
            (\<forall>ev2 h2. fst (get_session ev2 (chat_id m) s') = Inr h2 \<longrightarrow>
               issued s' (snd (get_session ev2 (chat_id m) s')) =
                 [NewSQLiteSession (str_int (chat_id m)) sessions_db] \<and>
               sessions (self (snd (get_session ev2 (chat_id m) s'))) (chat_id m) = Some h2 \<and>
               (one_session_per_chat s \<longrightarrow>
                  (\<forall>c h. sessions (self s) c = Some h \<longrightarrow> obj_id h2 \<noteq> obj_id h))))"
proof -
  let ?cid = "chat_id m"
  have nxt: "next_obj s' = next_obj s"
    using reset_next_obj [of ev upd s] assms(2) by simp
  have cases: "(case sessions (self s) ?cid of
            None \<Rightarrow>
              sessions (self s') = sessions (self s) \<and>
              issued s s' = [ReplyText ?cid reset_text None]
          | Some h \<Rightarrow>
              (case clear_session ev h of
                 None \<Rightarrow>
                   sessions (self s') = (sessions (self s))(?cid := None) \<and>
                   issued s s' = [ClearSession h, ReplyText ?cid reset_text None]
               | Some e \<Rightarrow>
                   sessions (self s') = sessions (self s) \<and>
                   issued s s' = [ClearSession h] \<and> out = Raised e))"
  proof (cases "sessions (self s) ?cid")
    case None
    from reset_absent [OF assms(1) None, of ev] assms(2) show ?thesis
      by (auto simp: None issued_def emit_def)
  next
    case (Some h)
    show ?thesis
    proof (cases "clear_session ev h")
      case None
      from reset_cleared [OF assms(1) Some None] assms(2) show ?thesis
        by (auto simp: Some None issued_def)
    next
      case (Some e)
      from reset_clear_raises [OF assms(1) \<open>sessions (self s) ?cid = Some h\<close> Some] assms(2)
      show ?thesis
        by (auto simp: Some \<open>sessions (self s) ?cid = Some h\<close> issued_def emit_def)
    qed
  qed
  have after: "sessions (self s') ?cid = None \<and>
            (\<forall>ev2 h2. fst (get_session ev2 ?cid s') = Inr h2 \<longrightarrow>
               issued s' (snd (get_session ev2 ?cid s')) =
                 [NewSQLiteSession (str_int ?cid) sessions_db] \<and>
               sessions (self (snd (get_session ev2 ?cid s'))) ?cid = Some h2 \<and>
               (one_session_per_chat s \<longrightarrow>
                  (\<forall>c h. sessions (self s) c = Some h \<longrightarrow> obj_id h2 \<noteq> obj_id h)))"
    if sent: "replies (issued s s') = [(?cid, reset_text, None)]"
  proof -
    from cases sent have gone: "sessions (self s') ?cid = None"
      by (auto simp: replies_def split: option.splits)
    have "issued s' (snd (get_session ev2 ?cid s')) = [NewSQLiteSession (str_int ?cid) sessions_db] \<and>
          sessions (self (snd (get_session ev2 ?cid s'))) ?cid = Some h2 \<and>
          (one_session_per_chat s \<longrightarrow> (\<forall>c h. sessions (self s) c = Some h \<longrightarrow> obj_id h2 \<noteq> obj_id h))"
      if g: "fst (get_session ev2 ?cid s') = Inr h2" for ev2 h2
    proof -
      from get_session_fresh [OF gone g] nxt have new: "obj_id h2 = next_obj s"
        and rest: "issued s' (snd (get_session ev2 ?cid s')) = [NewSQLiteSession (str_int ?cid) sessions_db]"
          "sessions (self (snd (get_session ev2 ?cid s'))) ?cid = Some h2"
        by simp_all
      have "obj_id h2 \<noteq> obj_id h" if "one_session_per_chat s" "sessions (self s) c = Some h" for c h
      proof -
        from that have "obj_id h < next_obj s" unfolding one_session_per_chat_def by blast
        with new show ?thesis by simp
      qed
      with rest show ?thesis by blast
    qed
    with gone show ?thesis by blast
  qed
  from cases after show ?thesis by blast
qed


theorem C3_reset_clears_then_removes_witness:
  "sessions (self (snd (reset_command ok_env (text_update 42 ''/reset'') state42))) 42 = None \<and>
   issued state42 (snd (reset_command ok_env (text_update 42 ''/reset'') state42)) =
     [ClearSession session42, ReplyText 42 reset_text None] \<and>
   issued (initial_state bot0 []) (snd (reset_command ok_env (text_update 42 ''/reset'') (initial_state bot0 []))) =
     [ReplyText 42 reset_text None]"
proof -
  let ?upd = "text_update 42 ''/reset''"
  let ?m = "\<lparr>chat_id = 42, msg_text = Some ''/reset''\<rparr>"
  have m: "message ?upd = Some ?m" by (simp add: text_update_def)
  have r: "reset_command ok_env ?upd s = (fst (reset_command ok_env ?upd s), snd (reset_command ok_env ?upd s))" for s
    by simp
  have present: "sessions (self state42) 42 = Some session42"
    by (simp add: state42_def bot0_def)
  have absent: "sessions (self (initial_state bot0 [])) 42 = None"
    by (simp add: initial_state_def bot0_def)
  have ok: "clear_session ok_env session42 = None"
    by (simp add: ok_env_def)
  from C3_reset_clears_then_removes [OF m r, of state42] C3_reset_clears_then_removes [OF m r, of "initial_state bot0 []"]
  show ?thesis
    by (simp add: present absent ok)
qed

section \<open>Frame of the commands\<close>

text \<open>
  C10. A \<open>/reset\<close> that does not come from chat \<open>y\<close> leaves the entry of \<open>y\<close> as it was;
  the only session it asks to clear is the one registered for the chat the update comes
  from, so (in a state that satisfies the registry's invariant) the session of \<open>y\<close> is not
  cleared. \<open>/start\<close> and \<open>/help\<close> leave the whole registry as it was, on every update and
  whatever the transport answers.
\<close>

theorem C10_commands_frame:
  assumes "update_chat upd \<noteq> Some y"
  shows "sessions (self (snd (reset_command ev upd s))) y = sessions (self s) y \<and>
         (\<forall>h. ClearSession h \<in> set (issued s (snd (reset_command ev upd s))) \<longrightarrow>
              (\<exists>x. update_chat upd = Some x \<and> x \<noteq> y \<and> sessions (self s) x = Some h)) \<and>
         (one_session_per_chat s \<longrightarrow>
            (\<forall>hy. sessions (self s) y = Some hy \<longrightarrow>
               ClearSession hy \<notin> set (issued s (snd (reset_command ev upd s))))) \<and>
         sessions (self (snd (start ev1 upd1 s))) = sessions (self s) \<and>
         sessions (self (snd (help_command ev2 upd2 s))) = sessions (self s)"
proof -
  have entry: "sessions (self (snd (reset_command ev upd s))) y = sessions (self s) y"
    using assms by (auto simp: reset_registry update_chat_def split: option.splits)
  have only: "\<exists>x. update_chat upd = Some x \<and> x \<noteq> y \<and> sessions (self s) x = Some h"
    if "ClearSession h \<in> set (issued s (snd (reset_command ev upd s)))" for h
    using that assms
    by (auto simp: reset_defs update_chat_def split: option.splits if_splits)
  have other: "ClearSession hy \<notin> set (issued s (snd (reset_command ev upd s)))"
    if inv: "one_session_per_chat s" and hy: "sessions (self s) y = Some hy" for hy
  proof
    assume "ClearSession hy \<in> set (issued s (snd (reset_command ev upd s)))"
    from only [OF this] obtain x where x: "x \<noteq> y" "sessions (self s) x = Some hy" by blast
    from inv x(2) hy have "x = y" unfolding one_session_per_chat_def by blast
    with x(1) show False by simp
  qed
  have st: "sessions (self (snd (start ev1 upd1 s))) = sessions (self s)"
    using kept_start [OF kept_refl, of s ev1 upd1] by (simp add: kept_def)
  have hp: "sessions (self (snd (help_command ev2 upd2 s))) = sessions (self s)"
    using kept_help [OF kept_refl, of s ev2 upd2] by (simp add: kept_def)
  from entry only other st hp show ?thesis by blast
qed

lemma str_int_examples: "str_int 42 = ''42''" "str_int 7 = ''7''"
  by code_simp+

lemma one_session_per_chat_state_two: "one_session_per_chat state_two"
  by (auto simp: one_session_per_chat_def state_two_def bot0_def session42_def session7_def
      str_int_examples split: if_splits)

theorem C10_commands_frame_witness:
  "sessions (self (snd (reset_command ok_env (text_update 42 ''/reset'') state_two))) 7 = Some session7 \<and>
   ClearSession session7 \<notin> set (issued state_two (snd (reset_command ok_env (text_update 42 ''/reset'') state_two))) \<and>
   sessions (self (snd (start ok_env (text_update 42 ''/start'') state_two))) = sessions (self state_two) \<and>
   sessions (self (snd (help_command ok_env (text_update 42 ''/help'') state_two))) = sessions (self state_two)"
proof -
  have u: "update_chat (text_update 42 ''/reset'') \<noteq> Some 7"
    by (simp add: update_chat_def text_update_def)
  have s7: "sessions (self state_two) 7 = Some session7"
    by (simp add: state_two_def bot0_def)
  from C10_commands_frame [OF u, of ok_env state_two ok_env "text_update 42 ''/start''" ok_env "text_update 42 ''/help''"]
    one_session_per_chat_state_two s7
  show ?thesis by simp
qed

section \<open>Startup and shutdown\<close>

lemma is_shutdown_call_log [simp]:
  "\<not> is_shutdown_call initializing_log"
  "\<not> is_shutdown_call polling_log"
  "\<not> is_shutdown_call stop_signal_log"
  "\<not> is_shutdown_call terminated_log"
  by (simp_all add: initializing_log_def polling_log_def stop_signal_log_def terminated_log_def)

lemma grows_refl: "grows P s s"
  by (simp add: grows_def)

lemma grows_emit: "P e \<Longrightarrow> grows P s s0 \<Longrightarrow> grows P s (emit e s0)"
  by (auto simp: grows_def emit_def)

lemma grows_call: "P e \<Longrightarrow> grows P s s0 \<Longrightarrow> grows P s (snd (call e r s0))"
  by (cases r) (simp_all add: call_def grows_emit)

lemma grows_andthen:
  assumes "grows P s (snd x)" and "\<And>s1. grows P s s1 \<Longrightarrow> grows P s (snd (k s1))"
  shows "grows P s (snd (andthen x k))"
proof (cases x)
  case (Pair a s1)
  with assms show ?thesis by (cases a) (simp_all add: andthen_def)
qed

lemma grows_ensure_application:
  assumes "\<And>t. P (BuildApplication t)" and "grows P s s0"
  shows "grows P s (snd (ensure_application ev s0))"
proof (cases "application (self s0)")
  case None
  have "grows P s (snd (call (BuildApplication (telegram_token (self s0)))
                         (app_build ev (telegram_token (self s0))) s0))"
    using assms by (intro grows_call)
  then show ?thesis
    using None
    by (cases "app_build ev (telegram_token (self s0))")
       (auto simp: ensure_application_def andthen_def call_def grows_def emit_def)
next
  case (Some a)
  with assms(2) show ?thesis by (simp add: ensure_application_def)
qed

lemma grows_startup:
  assumes "P AppInitialize" and "P AppStart" and "P StartPolling" and "grows P s s0"
  shows "grows P s (snd (startup ev s0))"
  unfolding startup_def using assms by (intro grows_andthen grows_call)

lemma grows_started:
  assumes "P initializing_log" and "\<And>t. P (BuildApplication t)"
    and "P AppInitialize" and "P AppStart" and "P StartPolling"
  shows "grows P s (snd (andthen (ensure_application ev (emit initializing_log s)) (startup ev)))"
  using assms by (intro grows_andthen grows_ensure_application grows_startup grows_emit grows_refl)

lemma started_outcome:
  "fst (andthen (ensure_application ev (emit initializing_log s)) (startup ev)) =
     (case startup_error ev s of Some e \<Rightarrow> Inl e | None \<Rightarrow> Inr ())"
  by (simp add: startup_error_def ensure_application_def startup_def andthen_def call_def emit_def
      split: option.splits)

lemma shutdown_trace:
  "trace (snd (shutdown ev s)) =
     trace s @ UpdaterStop #
       (case updater_stop ev of
          Some e1 \<Rightarrow> []
        | None \<Rightarrow>
            AppStop #
            (case app_stop ev of
               Some e2 \<Rightarrow> []
             | None \<Rightarrow>
                 AppShutdown #
                 (case app_shutdown ev of Some e3 \<Rightarrow> [] | None \<Rightarrow> [terminated_log])))"
  by (simp add: shutdown_def andthen_def call_def emit_def split: option.splits)

lemma shutdown_outcome:
  "fst (shutdown ev s) =
     (case updater_stop ev of
        Some e1 \<Rightarrow> Inl e1
      | None \<Rightarrow>
          (case app_stop ev of
             Some e2 \<Rightarrow> Inl e2
           | None \<Rightarrow> (case app_shutdown ev of Some e3 \<Rightarrow> Inl e3 | None \<Rightarrow> Inr ())))"
  by (simp add: shutdown_def andthen_def call_def emit_def split: option.splits)

lemma polling_wait_blocked:
  "stop_event_wait ev = None \<Longrightarrow> polling_wait ev s = (Blocked, emit StopEventWait s)"
  by (simp add: polling_wait_def)

lemma polling_wait_shutdown_calls:
  assumes "stop_event_wait ev = Some e"
  shows "\<exists>Y. trace (snd (polling_wait ev s)) = trace s @ Y \<and>
           shutdown_calls Y =
             UpdaterStop #
             (case updater_stop ev of
                Some e1 \<Rightarrow> []
              | None \<Rightarrow> AppStop # (case app_stop ev of Some e2 \<Rightarrow> [] | None \<Rightarrow> [AppShutdown]))"
proof -
  let ?s2 = "if is_KeyboardInterrupt_or_SystemExit e
             then emit stop_signal_log (emit StopEventWait s) else emit StopEventWait s"
  have "snd (polling_wait ev s) = snd (shutdown ev ?s2)"
    using assms by (cases "shutdown ev ?s2") (simp add: polling_wait_def Let_def split: sum.splits)
  then have "trace (snd (polling_wait ev s)) = trace ?s2 @ UpdaterStop #
       (case updater_stop ev of
          Some e1 \<Rightarrow> []
        | None \<Rightarrow>
            AppStop #
            (case app_stop ev of
               Some e2 \<Rightarrow> []
             | None \<Rightarrow>
                 AppShutdown #
                 (case app_shutdown ev of Some e3 \<Rightarrow> [] | None \<Rightarrow> [terminated_log])))"
    by (simp only: shutdown_trace)
  then show ?thesis
    by (auto simp: emit_def shutdown_calls_def split: option.splits)
qed

lemma polling_wait_outcome:
  assumes "stop_event_wait ev = Some e"
  shows "fst (polling_wait ev s) =
           (case updater_stop ev of
              Some e1 \<Rightarrow> Raised e1
            | None \<Rightarrow>
                (case app_stop ev of
                   Some e2 \<Rightarrow> Raised e2
                 | None \<Rightarrow>
                     (case app_shutdown ev of
                        Some e3 \<Rightarrow> Raised e3
                      | None \<Rightarrow>
                          if is_KeyboardInterrupt_or_SystemExit e then Returned else Raised e)))"
proof -
  let ?s2 = "if is_KeyboardInterrupt_or_SystemExit e
             then emit stop_signal_log (emit StopEventWait s) else emit StopEventWait s"
  have "fst (polling_wait ev s) =
          (case fst (shutdown ev ?s2) of
             Inl e' \<Rightarrow> Raised e'
           | Inr u \<Rightarrow> if is_KeyboardInterrupt_or_SystemExit e then Returned else Raised e)"
    using assms by (cases "shutdown ev ?s2") (simp add: polling_wait_def Let_def split: sum.splits)
  then show ?thesis
    by (simp add: shutdown_outcome split: option.splits)
qed

text \<open>
  C5, as stated, fails: \<open>initialize\<close>, \<open>start\<close> and \<open>start_polling\<close> (lines 205 to 207)
  stand before the \<open>try\<close>, so when one of them raises, \<open>run\<close> raises at once and none of
  the three shutdown calls is made.
\<close>

theorem C5_startup_failure_counterexample:
  "fst (run start_fails_env (initial_state bot0 [])) = Raised (OtherException ''network down'') \<and>
   shutdown_calls (issued (initial_state bot0 []) (snd (run start_fails_env (initial_state bot0 [])))) = []"
  by (simp add: run_def polling_wait_def shutdown_def startup_def ensure_application_def
      andthen_def call_def emit_def issued_def shutdown_calls_def Let_def
      start_fails_env_def ok_env_def initial_state_def bot0_def)

text \<open>
  C5, amended. When a startup call raises, \<open>run\<close> raises that exception and makes no
  shutdown call. When startup has returned, the shutdown sequence runs as soon as the wait
  ends, whatever exception ends it (\<open>KeyboardInterrupt\<close> and \<open>SystemExit\<close> are caught, any
  other is raised again afterwards): \<open>updater.stop\<close>, then \<open>stop\<close>, then \<open>shutdown\<close>, each
  one only after the one before has returned; an exception of one of them ends the sequence
  and leaves \<open>run\<close>. As long as the wait does not end, \<open>run\<close> does not return and makes no
  shutdown call.
\<close>

theorem C5_shutdown_after_startup:
  "(case startup_error ev s of
      Some e \<Rightarrow>
        fst (run ev s) = Raised e \<and> shutdown_calls (issued s (snd (run ev s))) = []
    | None \<Rightarrow>
        (case stop_event_wait ev of
           None \<Rightarrow>
             fst (run ev s) = Blocked \<and> shutdown_calls (issued s (snd (run ev s))) = []
         | Some e \<Rightarrow>
             shutdown_calls (issued s (snd (run ev s))) =
               UpdaterStop #
               (case updater_stop ev of
                  Some e1 \<Rightarrow> []
                | None \<Rightarrow>
                    AppStop #
                    (case app_stop ev of
                       Some e2 \<Rightarrow> []
                     | None \<Rightarrow> [AppShutdown])) \<and>
             fst (run ev s) =
               (case updater_stop ev of
                  Some e1 \<Rightarrow> Raised e1
                | None \<Rightarrow>
                    (case app_stop ev of
                       Some e2 \<Rightarrow> Raised e2
                     | None \<Rightarrow>
                         (case app_shutdown ev of
                            Some e3 \<Rightarrow> Raised e3
                          | None \<Rightarrow>
                              if is_KeyboardInterrupt_or_SystemExit e then Returned
                              else Raised e)))))"
proof -
  let ?x = "andthen (ensure_application ev (emit initializing_log s)) (startup ev)"
  obtain a s1 where x: "?x = (a, s1)" by (cases ?x)
  have "grows (\<lambda>e. \<not> is_shutdown_call e) s (snd ?x)"
    by (intro grows_started) simp_all
  with x obtain X where X: "trace s1 = trace s @ X" "shutdown_calls X = []"
    by (auto simp: grows_def shutdown_calls_def list_all_iff filter_empty_conv)
  have a: "a = (case startup_error ev s of Some e \<Rightarrow> Inl e | None \<Rightarrow> Inr ())"
    using started_outcome [of ev s] x by simp
  show ?thesis
  proof (cases "startup_error ev s")
    case (Some e)
    with a x X show ?thesis by (simp add: run_def issued_def)
  next
    case None
    with a x have r: "run ev s = polling_wait ev (emit polling_log s1)"
      by (simp add: run_def)
    show ?thesis
    proof (cases "stop_event_wait ev")
      case wn: None
      with r X have "fst (run ev s) = Blocked" "shutdown_calls (issued s (snd (run ev s))) = []"
        by (simp_all add: polling_wait_blocked issued_def emit_def shutdown_calls_def)
      with None wn show ?thesis by simp
    next
      case (Some e)
      from polling_wait_shutdown_calls [OF Some, of "emit polling_log s1"]
      obtain Y where Y: "trace (snd (run ev s)) = trace (emit polling_log s1) @ Y"
        "shutdown_calls Y =
             UpdaterStop #
             (case updater_stop ev of
                Some e1 \<Rightarrow> []
              | None \<Rightarrow> AppStop # (case app_stop ev of Some e2 \<Rightarrow> [] | None \<Rightarrow> [AppShutdown]))"
        using r by auto
      from Y(1) X(1) have "issued s (snd (run ev s)) = X @ polling_log # Y"
        by (simp add: issued_def emit_def)
      with X(2) Y(2) have calls: "shutdown_calls (issued s (snd (run ev s))) =
             UpdaterStop #
             (case updater_stop ev of
                Some e1 \<Rightarrow> []
              | None \<Rightarrow> AppStop # (case app_stop ev of Some e2 \<Rightarrow> [] | None \<Rightarrow> [AppShutdown]))"
        by (simp add: shutdown_calls_def)
      from polling_wait_outcome [OF Some, of "emit polling_log s1"] r
      have "fst (run ev s) =
           (case updater_stop ev of
              Some e1 \<Rightarrow> Raised e1
            | None \<Rightarrow>
                (case app_stop ev of
                   Some e2 \<Rightarrow> Raised e2
                 | None \<Rightarrow>
                     (case app_shutdown ev of
                        Some e3 \<Rightarrow> Raised e3
                      | None \<Rightarrow>
                          if is_KeyboardInterrupt_or_SystemExit e then Returned else Raised e)))"
        by simp
      with calls None Some show ?thesis by simp
    qed
  qed
qed


theorem C5_shutdown_after_startup_witness:
  "shutdown_calls (issued (initial_state bot0 []) (snd (run ok_env (initial_state bot0 [])))) =
     [UpdaterStop, AppStop, AppShutdown] \<and>
   fst (run ok_env (initial_state bot0 [])) = Raised CancelledError"
  using C5_shutdown_after_startup [of ok_env "initial_state bot0 []"]
  by (simp add: startup_error_def ok_env_def initial_state_def bot0_def)

section \<open>Bootstrap\<close>

lemma is_run_call_log [simp]:
  "is_run_call initializing_log" "is_run_call polling_log"
  "is_run_call stop_signal_log" "is_run_call terminated_log"
  by (simp_all add: initializing_log_def polling_log_def stop_signal_log_def terminated_log_def)

lemma launch_of_effect_log [simp]:
  "launch_of_effect (mcp_start_log c sc) = []"
  "launch_of_effect mcp_started_log = []"
  "launch_of_effect (bot_stopped_log e) = []"
  "launch_of_effect closing_log = []"
  by (simp_all add: mcp_start_log_def mcp_started_log_def bot_stopped_log_def closing_log_def)

lemma is_chat_activity_log [simp]:
  "\<not> is_chat_activity (mcp_start_log c sc)"
  "\<not> is_chat_activity mcp_started_log"
  "\<not> is_chat_activity (bot_stopped_log e)"
  "\<not> is_chat_activity closing_log"
  by (simp_all add: mcp_start_log_def mcp_started_log_def bot_stopped_log_def closing_log_def)

lemma launches_append: "launches (xs @ ys) = launches xs @ launches ys"
  by (simp add: launches_def)

lemma launches_run_calls: "list_all is_run_call X \<Longrightarrow> launches X = []"
proof (induction X)
  case Nil
  show ?case by (simp add: launches_def)
next
  case (Cons e X)
  then have "launches X = []" by simp
  moreover from Cons.prems have "launch_of_effect e = []" by (cases e) simp_all
  ultimately show ?case by (simp add: launches_def)
qed

lemma grows_shutdown:
  assumes "P UpdaterStop" and "P AppStop" and "P AppShutdown" and "P terminated_log"
    and "grows P s s0"
  shows "grows P s (snd (shutdown ev s0))"
  unfolding shutdown_def using assms
  by (intro grows_andthen grows_call) (simp_all add: grows_emit)

lemma grows_polling_wait:
  assumes "P StopEventWait" and "P stop_signal_log"
    and "P UpdaterStop" and "P AppStop" and "P AppShutdown" and "P terminated_log"
    and "grows P s s0"
  shows "grows P s (snd (polling_wait ev s0))"
proof (cases "stop_event_wait ev")
  case None
  with assms show ?thesis by (simp add: polling_wait_def grows_emit)
next
  case (Some e)
  let ?s2 = "if is_KeyboardInterrupt_or_SystemExit e
             then emit stop_signal_log (emit StopEventWait s0) else emit StopEventWait s0"
  have "grows P s ?s2" using assms by (simp add: grows_emit)
  then have "grows P s (snd (shutdown ev ?s2))"
    using assms by (intro grows_shutdown)
  with Some show ?thesis
    by (cases "shutdown ev ?s2") (simp add: polling_wait_def Let_def split: sum.splits)
qed

lemma grows_run: "grows is_run_call s (snd (run ev s))"
proof -
  let ?x = "andthen (ensure_application ev (emit initializing_log s)) (startup ev)"
  have x: "grows is_run_call s (snd ?x)"
    by (intro grows_started) simp_all
  show ?thesis
  proof (cases ?x)
    case (Pair a s1)
    with x have s1: "grows is_run_call s s1" by simp
    then have "grows is_run_call s (snd (polling_wait ev (emit polling_log s1)))"
      by (intro grows_polling_wait grows_emit) simp_all
    with Pair s1 show ?thesis by (cases a) (simp_all add: run_def)
  qed
qed

lemma main_body_launches:
  "\<exists>X. snd (main_body ev environ srv tr) = tr @ X \<and> launches X = []"
proof (cases "OrdersBot_init ev environ srv (tr @ [mcp_started_log])")
  case (Pair a tr1)
  then have tr1: "tr1 = tr @ [mcp_started_log, LoadDotenv]"
    by (auto simp: OrdersBot_init_def split: option.splits if_splits)
  have l1: "launches [mcp_started_log, LoadDotenv] = []"
    by (simp add: launches_def)
  show ?thesis
  proof (cases a)
    case (Inl e)
    with Pair tr1 l1 show ?thesis by (simp add: main_body_def)
  next
    case (Inr b)
    from grows_run [of "initial_state b tr1" ev]
    obtain X where X: "trace (snd (run ev (initial_state b tr1))) = tr1 @ X" "list_all is_run_call X"
      by (auto simp: grows_def initial_state_def)
    from X(2) have lx: "launches X = []" by (rule launches_run_calls)
    obtain out s where r: "run ev (initial_state b tr1) = (out, s)"
      by (cases "run ev (initial_state b tr1)")
    with X(1) have s: "trace s = tr @ [mcp_started_log, LoadDotenv] @ X" by (simp add: tr1)
    have "\<exists>Z. snd (main_body ev environ srv tr) = trace s @ Z \<and> launches Z = []"
      using Pair Inr r
      by (cases out) (auto simp: main_body_def launches_def)
    then obtain Z where Z: "snd (main_body ev environ srv tr) = trace s @ Z" "launches Z = []"
      by blast
    from Z(1) s have "snd (main_body ev environ srv tr) = tr @ ([mcp_started_log, LoadDotenv] @ X @ Z)"
      by simp
    moreover have "launches ([mcp_started_log, LoadDotenv] @ X @ Z) = []"
      using l1 lx Z(2) by (simp only: launches_append) simp
    ultimately show ?thesis by blast
  qed
qed

text \<open>
  C8. Whatever the environment holds after \<open>load_dotenv()\<close> and whatever the collaborators
  answer, \<open>main\<close> launches the tool provider exactly once, with the command read from
  \<open>ORDERS_MCP_COMMAND\<close> (\<open>python\<close> when the variable is unset) and the one-element argument
  list holding the script read from \<open>ORDERS_MCP_SCRIPT\<close> (\<open>orders_mcp_server.py\<close> when it is
  unset).
\<close>

theorem C8_launch_command_and_script:
  "launches (snd (main ev environ0)) =
     [(case load_dotenv ev environ0 ''ORDERS_MCP_COMMAND'' of None \<Rightarrow> ''python'' | Some c \<Rightarrow> c,
       [case load_dotenv ev environ0 ''ORDERS_MCP_SCRIPT'' of
          None \<Rightarrow> ''orders_mcp_server.py'' | Some sc \<Rightarrow> sc])]"
proof -
  let ?environ1 = "load_dotenv ev environ0"
  let ?c = "getenv_default ?environ1 ''ORDERS_MCP_COMMAND'' ''python''"
  let ?sc = "getenv_default ?environ1 ''ORDERS_MCP_SCRIPT'' ''orders_mcp_server.py''"
  let ?srv = "\<lparr>command = ?c, args = [?sc]\<rparr>"
  let ?tr = "[LoadDotenv, mcp_start_log ?c ?sc, MCPConnect ?c [?sc]]"
  have ltr: "launches ?tr = [(?c, [?sc])]" by (simp add: launches_def)
  have "\<exists>X. snd (main ev environ0) = ?tr @ X \<and> launches X = []"
  proof (cases "mcp_connect ev ?c [?sc]")
    case (Some e)
    then show ?thesis by (simp add: main_def Let_def launches_def)
  next
    case None
    from main_body_launches [of ev ?environ1 ?srv ?tr]
    obtain X where X: "snd (main_body ev ?environ1 ?srv ?tr) = ?tr @ X" "launches X = []"
      by blast
    obtain out tr1 where b: "main_body ev ?environ1 ?srv ?tr = (out, tr1)"
      by (cases "main_body ev ?environ1 ?srv ?tr")
    with X have tr1: "tr1 = ?tr @ X" by simp
    have "snd (main ev environ0) = ?tr @ X \<or> snd (main ev environ0) = ?tr @ X @ [MCPCleanup]"
      using None b tr1
      by (cases out; cases "mcp_cleanup ev") (simp_all add: main_def Let_def)
    moreover have "launches (X @ [MCPCleanup]) = []"
      using X(2) by (simp add: launches_def)
    ultimately show ?thesis using X(2) by blast
  qed
  then obtain X where "snd (main ev environ0) = ?tr @ X" "launches X = []" by blast
  with ltr have "launches (snd (main ev environ0)) = [(?c, [?sc])]"
    by (simp only: launches_append) simp
  then show ?thesis by (simp add: getenv_default_def)
qed

theorem C8_launch_command_and_script_witness:
  "launches (snd (main ok_env Map.empty)) = [(''python'', [''orders_mcp_server.py''])] \<and>
   launches (snd (main ok_env only_command_env)) = [(''python3'', [''orders_mcp_server.py''])] \<and>
   launches (snd (main ok_env only_script_env)) = [(''python'', [''srv.py''])] \<and>
   launches (snd (main ok_env both_env)) = [(''python3'', [''srv.py''])]"
  using C8_launch_command_and_script [of ok_env Map.empty]
        C8_launch_command_and_script [of ok_env only_command_env]
        C8_launch_command_and_script [of ok_env only_script_env]
        C8_launch_command_and_script [of ok_env both_env]
  by (simp add: ok_env_def only_command_env_def only_script_env_def both_env_def)

text \<open>
  C6. When \<open>TELEGRAM_BOT_TOKEN\<close> is absent or empty in the environment the constructor
  reads (after its \<open>load_dotenv()\<close>), the constructor raises the configuration error
  \<open>RuntimeError("TELEGRAM_BOT_TOKEN non impostato ...")\<close>. In \<open>main\<close> the constructor stands
  outside the inner \<open>try\<close>: the error leaves the body at once, \<open>run\<close> is never called, so
  \<open>main\<close> ends with an exception and has made no call to the chat transport, the agent or
  the session store: the application is never built and no handler runs.
\<close>

theorem C6_missing_token_is_fatal:
  assumes "load_dotenv ev environ ''TELEGRAM_BOT_TOKEN'' = None \<or>
           load_dotenv ev environ ''TELEGRAM_BOT_TOKEN'' = Some []"
  shows "OrdersBot_init ev environ srv tr = (Inl missing_token_error, tr @ [LoadDotenv]) \<and>
         main_body ev environ srv tr = (Raised missing_token_error, tr @ [mcp_started_log, LoadDotenv]) \<and>
         (environ = load_dotenv ev environ0 \<longrightarrow>
            list_all (\<lambda>e. \<not> is_chat_activity e) (snd (main ev environ0)) \<and>
            (\<exists>e. fst (main ev environ0) = Raised e))"
proof -
  have init: "OrdersBot_init ev environ srv tr = (Inl missing_token_error, tr @ [LoadDotenv])" for srv tr
    using assms by (auto simp: OrdersBot_init_def)
  have body: "main_body ev environ srv tr = (Raised missing_token_error, tr @ [mcp_started_log, LoadDotenv])" for srv tr
    by (simp add: main_body_def init)
  have "list_all (\<lambda>e. \<not> is_chat_activity e) (snd (main ev environ0)) \<and>
        (\<exists>e. fst (main ev environ0) = Raised e)"
    if "environ = load_dotenv ev environ0"
    using body that
    by (auto simp: main_def Let_def split: option.splits)
  with init body show ?thesis by blast
qed


theorem C6_missing_token_is_fatal_witness:
  "OrdersBot_init ok_env Map.empty (mcp_server bot0) [] = (Inl missing_token_error, [LoadDotenv]) \<and>
   OrdersBot_init ok_env [''TELEGRAM_BOT_TOKEN'' \<mapsto> []] (mcp_server bot0) [] =
     (Inl missing_token_error, [LoadDotenv]) \<and>
   list_all (\<lambda>e. \<not> is_chat_activity e) (snd (main ok_env Map.empty)) \<and>
   (\<exists>e. fst (main ok_env Map.empty) = Raised e)"
  using C6_missing_token_is_fatal [of ok_env Map.empty "mcp_server bot0" "[]" Map.empty]
        C6_missing_token_is_fatal [of ok_env "[''TELEGRAM_BOT_TOKEN'' \<mapsto> []]" "mcp_server bot0" "[]"]
  by (simp add: ok_env_def)

end
